theory Spec2Isabelle
  imports Main "HOL-Library.Sublist"
begin

section \<open>vex: a single-header C99 argument parser (include/vex/vex.h)\<close>

text \<open>
  The embedding follows \<^verbatim>\<open>vex.h\<close> function by function.

  \<^item> A \<^verbatim>\<open>char*\<close> is a \<open>string option\<close>: \<open>None\<close> is the null pointer, \<open>Some s\<close>
    points to the characters \<open>s\<close> before the terminating NUL.
  \<^item> Every \<^verbatim>\<open>VEX_MALLOC\<close>/\<^verbatim>\<open>VEX_REALLOC\<close> request consumes one entry of an allocation
    schedule (\<open>heap\<close>); the entry says whether the request succeeds. The empty
    schedule lets every further request succeed.
  \<^item> A function whose behaviour the C standard leaves undefined on some input
    (a string function applied to a null pointer, \<^verbatim>\<open>atoi\<close> out of range,
    \<^verbatim>\<open>vsnprintf\<close> into a null buffer) returns \<open>None\<close> (respectively \<open>Undefined\<close>) there.
  \<^item> A growable buffer (pointer, element count) is the list of its stored elements;
    its capacity stays a field of its own. Counts and capacities are \<open>nat\<close>.
  \<^item> \<^verbatim>\<open>int\<close> is taken to be 32 bits wide (\<open>INT_MIN\<close>, \<open>INT_MAX\<close>).
  \<^item> The pointer \<^verbatim>\<open>ctx->arg_token\<close> has a state of its own (\<open>arg_token_ptr\<close>): null, a
    live buffer, or a buffer that has been freed. \<^verbatim>\<open>vex_parse\<close> frees the token buffer at
    l. 221 and keeps the pointer, and \<^verbatim>\<open>_vex_add_token\<close> passes it to \<^verbatim>\<open>VEX_REALLOC\<close>;
    freeing or reallocating a freed buffer is undefined. No other buffer is freed by
    the functions modelled while a pointer to it is kept.
  \<^item> \<^verbatim>\<open>vex_get_help\<close>, \<^verbatim>\<open>vex_get_version\<close> and \<^verbatim>\<open>vex_free\<close> are not modelled.
\<close>

subsection \<open>Constants\<close>

abbreviation VEX_ARG_TYPE_UNKNOWN :: int where "VEX_ARG_TYPE_UNKNOWN \<equiv> 0"
abbreviation VEX_ARG_TYPE_FLAG :: int where "VEX_ARG_TYPE_FLAG \<equiv> 1"
abbreviation VEX_ARG_TYPE_INT :: int where "VEX_ARG_TYPE_INT \<equiv> 2"
abbreviation VEX_ARG_TYPE_DUB :: int where "VEX_ARG_TYPE_DUB \<equiv> 3"
abbreviation VEX_ARG_TYPE_STR :: int where "VEX_ARG_TYPE_STR \<equiv> 4"

abbreviation VEX_STATUS_OK :: int where "VEX_STATUS_OK \<equiv> 0"
abbreviation VEX_STATUS_BAD_ALLOC :: int where "VEX_STATUS_BAD_ALLOC \<equiv> 1"
abbreviation VEX_STATUS_BAD_VALUE :: int where "VEX_STATUS_BAD_VALUE \<equiv> 2"
abbreviation VEX_STATUS_UNKNOWN_ARG :: int where "VEX_STATUS_UNKNOWN_ARG \<equiv> 3"

abbreviation INT_MIN :: int where "INT_MIN \<equiv> - 2147483648"
abbreviation INT_MAX :: int where "INT_MAX \<equiv> 2147483647"

abbreviation NUL :: char where "NUL \<equiv> CHR 0x00"

subsection \<open>The C library functions the parser calls\<close>

type_synonym heap = "bool list"

definition alloc :: "heap \<Rightarrow> bool \<times> heap" where
  "alloc h = (case h of [] \<Rightarrow> (True, []) | ok # h' \<Rightarrow> (ok, h'))"

text \<open>Character classes of \<^verbatim>\<open><ctype.h>\<close> in the "C" locale, on the byte value.\<close>

definition isdigit :: "char \<Rightarrow> bool" where
  "isdigit c = (let n = (of_char c :: nat) in 48 \<le> n \<and> n \<le> 57)"

definition isalpha :: "char \<Rightarrow> bool" where
  "isalpha c = (let n = (of_char c :: nat) in (65 \<le> n \<and> n \<le> 90) \<or> (97 \<le> n \<and> n \<le> 122))"

definition isspace :: "char \<Rightarrow> bool" where
  "isspace c = (let n = (of_char c :: nat) in n = 32 \<or> (9 \<le> n \<and> n \<le> 13))"

text \<open>
  \<^verbatim>\<open>strcmp\<close>: only the sign of the result is specified by C; the model returns
  \<open>-1\<close>, \<open>0\<close> or \<open>1\<close>, comparing bytes as unsigned.
\<close>

fun str_compare :: "string \<Rightarrow> string \<Rightarrow> int" where
  "str_compare [] [] = 0"
| "str_compare [] (y # ys) = - 1"
| "str_compare (x # xs) [] = 1"
| "str_compare (x # xs) (y # ys) =
     (if x = y then str_compare xs ys
      else if (of_char x :: nat) < of_char y then - 1 else 1)"

definition strcmp :: "string option \<Rightarrow> string option \<Rightarrow> int option" where
  "strcmp s1 s2 =
     (case s1 of None \<Rightarrow> None
      | Some a \<Rightarrow> (case s2 of None \<Rightarrow> None | Some b \<Rightarrow> Some (str_compare a b)))"

text \<open>\<^verbatim>\<open>strncmp\<close> compares at most \<open>n\<close> characters of each string.\<close>

definition strncmp :: "string option \<Rightarrow> string option \<Rightarrow> nat \<Rightarrow> int option" where
  "strncmp s1 s2 n =
     (case s1 of None \<Rightarrow> None
      | Some a \<Rightarrow> (case s2 of None \<Rightarrow> None
                   | Some b \<Rightarrow> Some (str_compare (take n a) (take n b))))"

text \<open>\<^verbatim>\<open>strcspn(s, "=")\<close>: the length of the initial segment of \<open>s\<close> free of \<open>=\<close>.\<close>

definition strcspn_eq :: "string \<Rightarrow> nat" where
  "strcspn_eq s = length (takeWhile (\<lambda>c. c \<noteq> CHR ''='') s)"

text \<open>\<^verbatim>\<open>strchr(s, c)\<close>: the suffix of \<open>s\<close> that starts at the first \<open>c\<close>, or null.\<close>

definition strchr :: "string \<Rightarrow> char \<Rightarrow> string option" where
  "strchr s c = (case dropWhile (\<lambda>x. x \<noteq> c) s of [] \<Rightarrow> None | r # rs \<Rightarrow> Some (r # rs))"

text \<open>
  \<^verbatim>\<open>atoi\<close>: leading white space, an optional sign, then decimal digits up to the
  first other character. A value that \<^verbatim>\<open>int\<close> cannot represent is undefined behaviour.
\<close>

definition digit_val :: "char \<Rightarrow> int" where
  "digit_val c = int (of_char c) - 48"

definition decimal :: "string \<Rightarrow> int" where
  "decimal ds = foldl (\<lambda>acc c. 10 * acc + digit_val c) 0 ds"

definition atoi :: "string \<Rightarrow> int option" where
  "atoi s =
     (let s1 = dropWhile isspace s;
          neg = (case s1 of [] \<Rightarrow> False | c # r \<Rightarrow> c = CHR ''-'');
          s2 = (case s1 of [] \<Rightarrow> []
                | c # r \<Rightarrow> if c = CHR ''-'' \<or> c = CHR ''+'' then r else s1);
          n = decimal (takeWhile isdigit s2);
          v = (if neg then - n else n)
      in if INT_MIN \<le> v \<and> v \<le> INT_MAX then Some v else None)"

text \<open>
  \<^verbatim>\<open>atof\<close>: floating-point arithmetic is not modelled; a \<^verbatim>\<open>double\<close> is kept as the
  text \<^verbatim>\<open>atof\<close> read it from.
\<close>

datatype c_double = Atof string

definition atof :: "string \<Rightarrow> c_double" where
  "atof s = Atof s"

subsection \<open>Data structures\<close>

text \<open>
  \<^verbatim>\<open>vex_value\<close> is a union; the model keeps which member was written. The initialiser
  \<^verbatim>\<open>{ 0 }\<close> sets the first member, \<^verbatim>\<open>str_arg\<close>, to the null pointer.
\<close>

datatype vex_value = Str_arg "string option" | Dub_arg c_double | Int_arg int

abbreviation zero_value :: vex_value where "zero_value \<equiv> Str_arg None"

text \<open>\<^verbatim>\<open>vex_arg_token\<close>; \<^verbatim>\<open>arg_count\<close> is the length of \<open>t_arg\<close> (the member \<^verbatim>\<open>arg\<close>).\<close>

record vex_arg_token =
  t_long_name :: "string option"
  t_short_name :: char
  t_arg :: "vex_value list"
  t_arg_type :: int

record vex_arg_desc =
  description :: "string option"
  long_name :: "string option"
  short_name :: char
  arg_type :: int
  max_count :: int

record vex_init_info =
  info_name :: "string option"
  info_version :: "string option"
  info_description :: "string option"

text \<open>What the pointer \<^verbatim>\<open>ctx->arg_token\<close> points to.\<close>

datatype pointer = Null_ptr | Live_ptr | Freed_ptr

text \<open>
  \<^verbatim>\<open>vex_ctx\<close>; \<^verbatim>\<open>num_arg_desc\<close> is the length of \<open>arg_desc\<close> and \<^verbatim>\<open>num_arg_token\<close> the
  length of \<open>arg_token\<close>, the tokens stored; \<open>arg_token_ptr\<close> is the state of the pointer
  \<^verbatim>\<open>arg_token\<close>.
\<close>

record vex_ctx =
  name :: "string option"
  help_msg :: "string option"
  status_msg :: "string option"
  ctx_description :: "string option"
  version :: "string option"
  arg_desc :: "vex_arg_desc list"
  capacity_arg_desc :: nat
  arg_token :: "vex_arg_token list"
  arg_token_ptr :: pointer
  capacity_arg_token :: nat
  status :: int

abbreviation zero_token :: vex_arg_token where
  "zero_token \<equiv> \<lparr>t_long_name = None, t_short_name = NUL, t_arg = [], t_arg_type = 0\<rparr>"

text \<open>
  What a statement of a \<^verbatim>\<open>bool\<close> function does: undefined behaviour, \<^verbatim>\<open>return false\<close>
  (with the context and schedule at that point), or it goes on with a result.
\<close>

datatype 'a outcome = Undefined | Return_false vex_ctx heap | Proceed 'a

subsection \<open>Helpers of the source\<close>

text \<open>\<^verbatim>\<open>_vex_strdup\<close>\<close>

definition vex_strdup :: "string option \<Rightarrow> heap \<Rightarrow> string option \<times> heap" where
  "vex_strdup str h =
     (case str of None \<Rightarrow> (None, h)
      | Some s \<Rightarrow> (case alloc h of (ok, h') \<Rightarrow> (if ok then Some s else None, h')))"

text \<open>
  \<^verbatim>\<open>_vex_set_status\<close>; \<open>msg\<close> is the formatted text (\<open>None\<close> when \<^verbatim>\<open>fmt\<close> is null).
  \<^verbatim>\<open>vsnprintf\<close> writes at most 255 characters, and the stored C string ends at the
  first NUL written. The result of \<^verbatim>\<open>VEX_MALLOC(256)\<close> is not checked before
  \<^verbatim>\<open>vsnprintf\<close> writes to it.
\<close>

definition vex_set_status ::
  "vex_ctx \<Rightarrow> int \<Rightarrow> string option \<Rightarrow> heap \<Rightarrow> (vex_ctx \<times> heap) option" where
  "vex_set_status ctx st msg h =
     (if st \<noteq> VEX_STATUS_OK \<and> st \<noteq> VEX_STATUS_BAD_ALLOC \<and> msg \<noteq> None then
        (case alloc h of (ok, h') \<Rightarrow>
           if ok then
             Some (ctx\<lparr>status := st,
                       status_msg := Some (takeWhile (\<lambda>c. c \<noteq> NUL) (take 255 (the msg)))\<rparr>, h')
           else None)
      else Some (ctx\<lparr>status := st, status_msg := None\<rparr>, h))"

text \<open>A failure path: set the status, then \<^verbatim>\<open>return false\<close>.\<close>

definition fail_with :: "vex_ctx \<Rightarrow> int \<Rightarrow> string option \<Rightarrow> heap \<Rightarrow> 'a outcome" where
  "fail_with ctx st msg h =
     (case vex_set_status ctx st msg h of
        None \<Rightarrow> Undefined
      | Some (ctx', h') \<Rightarrow> Return_false ctx' h')"

text \<open>
  The resize loop of \<^verbatim>\<open>vex_add_arg\<close> and of \<^verbatim>\<open>_vex_add_token\<close> (the two differ in the
  element type only): while \<open>num \<ge> capacity\<close>, double the capacity (0 becomes 1) and
  reallocate. The result is whether every request succeeded, the capacity reached
  and the remaining schedule.
\<close>

function grow :: "nat \<Rightarrow> nat \<Rightarrow> heap \<Rightarrow> bool \<times> nat \<times> heap" where
  "grow num cap h =
     (if num \<ge> cap then
        (let new_capacity = cap * 2 + (if cap * 2 = 0 then 1 else 0)
         in case alloc h of (ok, h') \<Rightarrow>
              if ok then grow num new_capacity h' else (False, cap, h'))
      else (True, cap, h))"
  by pat_completeness auto
termination
  by (relation "measure (\<lambda>(num, cap, h). Suc num - cap)") auto

declare grow.simps [simp del]

text \<open>
  \<^verbatim>\<open>_vex_add_token\<close>. When the resize loop is entered, \<^verbatim>\<open>ctx->arg_token\<close> goes to
  \<^verbatim>\<open>VEX_REALLOC\<close>: undefined for a freed buffer. Every successful request makes the
  pointer live and raises the capacity, so the capacity is unchanged exactly when no
  request succeeded, and then the pointer is the old one. The token is stored through
  the pointer (l. 552): undefined unless it points to a live buffer.
\<close>

definition vex_add_token ::
  "vex_ctx \<Rightarrow> vex_arg_token \<Rightarrow> heap \<Rightarrow> (vex_ctx \<times> heap) outcome" where
  "vex_add_token ctx token h =
     (if capacity_arg_token ctx \<le> length (arg_token ctx) \<and> arg_token_ptr ctx = Freed_ptr
      then Undefined
      else
        (case grow (length (arg_token ctx)) (capacity_arg_token ctx) h of
           (ok, cap, h') \<Rightarrow>
             let p = (if cap = capacity_arg_token ctx then arg_token_ptr ctx else Live_ptr) in
             if \<not> ok then
               fail_with (ctx\<lparr>capacity_arg_token := cap, arg_token_ptr := p\<rparr>)
                 VEX_STATUS_BAD_ALLOC None h'
             else if p \<noteq> Live_ptr then Undefined
             else
               Proceed (ctx\<lparr>capacity_arg_token := cap, arg_token_ptr := Live_ptr,
                            arg_token := arg_token ctx @ [token]\<rparr>, h')))"

text \<open>\<^verbatim>\<open>_vec_token_add_value\<close>; the updated token is returned to the caller.\<close>

definition vec_token_add_value ::
  "vex_ctx \<Rightarrow> vex_arg_token \<Rightarrow> vex_value \<Rightarrow> heap \<Rightarrow> (vex_arg_token \<times> heap) outcome" where
  "vec_token_add_value ctx token v h =
     (case alloc h of (ok, h') \<Rightarrow>
        if ok then Proceed (token\<lparr>t_arg := t_arg token @ [v]\<rparr>, h')
        else fail_with ctx VEX_STATUS_BAD_ALLOC None h')"

subsection \<open>vex_add_arg\<close>

text \<open>
  The duplicate scan: \<open>Some True\<close> when an entry has the same short name or an equal
  long name; \<^verbatim>\<open>strcmp\<close> runs only when the short names differ.
\<close>

fun find_duplicate :: "vex_arg_desc list \<Rightarrow> vex_arg_desc \<Rightarrow> bool option" where
  "find_duplicate [] desc = Some False"
| "find_duplicate (e # es) desc =
     (if short_name e = short_name desc then Some True
      else (case strcmp (long_name e) (long_name desc) of
              None \<Rightarrow> None
            | Some r \<Rightarrow> if r = 0 then Some True else find_duplicate es desc))"

definition vex_add_arg ::
  "vex_ctx \<Rightarrow> vex_arg_desc \<Rightarrow> heap \<Rightarrow> (vex_ctx \<times> heap) outcome" where
  "vex_add_arg ctx desc h =
     (if \<not> isalpha (short_name desc) then
        fail_with ctx VEX_STATUS_BAD_VALUE
          (Some (''Invalid short arg name: '' @ [short_name desc])) h
      else if short_name desc = NUL \<and> long_name desc = None then
        fail_with ctx VEX_STATUS_BAD_VALUE (Some ''No arg name given'') h
      else
        (case find_duplicate (arg_desc ctx) desc of
           None \<Rightarrow> Undefined
         | Some True \<Rightarrow>
             if short_name desc = NUL then
               (case long_name desc of
                  None \<Rightarrow> Undefined
                | Some ln \<Rightarrow>
                    fail_with ctx VEX_STATUS_BAD_VALUE (Some (''Duplicate arguments: --'' @ ln)) h)
             else
               fail_with ctx VEX_STATUS_BAD_VALUE
                 (Some (''Duplicate arguments: -'' @ [short_name desc])) h
         | Some False \<Rightarrow>
             (case grow (length (arg_desc ctx)) (capacity_arg_desc ctx) h of
                (ok, cap, h1) \<Rightarrow>
                  if \<not> ok then
                    fail_with (ctx\<lparr>capacity_arg_desc := cap\<rparr>) VEX_STATUS_BAD_ALLOC None h1
                  else
                    (case vex_strdup (long_name desc) h1 of (ln, h2) \<Rightarrow>
                     case vex_strdup (description desc) h2 of (ds, h3) \<Rightarrow>
                       Proceed
                         (ctx\<lparr>capacity_arg_desc := cap,
                              arg_desc := arg_desc ctx @
                                [\<lparr>description = ds, long_name = ln,
                                  short_name = short_name desc,
                                  arg_type = arg_type desc,
                                  max_count = max_count desc\<rparr>],
                              help_msg := None\<rparr>, h3)))))"

subsection \<open>vex_init\<close>

text \<open>The return value of the two \<^verbatim>\<open>vex_add_arg\<close> calls is not looked at.\<close>

fun ignore_result :: "(vex_ctx \<times> heap) outcome \<Rightarrow> (vex_ctx \<times> heap) option" where
  "ignore_result Undefined = None"
| "ignore_result (Return_false ctx h) = Some (ctx, h)"
| "ignore_result (Proceed r) = Some r"

definition vex_init :: "vex_init_info \<Rightarrow> heap \<Rightarrow> (vex_ctx \<times> heap) option" where
  "vex_init init_info h =
     (case vex_strdup (info_name init_info) h of (n, h1) \<Rightarrow>
      case vex_strdup (info_description init_info) h1 of (d, h2) \<Rightarrow>
      case vex_strdup (info_version init_info) h2 of (v, h3) \<Rightarrow>
        let ctx = \<lparr>name = n, help_msg = None, status_msg = None, ctx_description = d,
                   version = v, arg_desc = [], capacity_arg_desc = 0, arg_token = [],
                   arg_token_ptr = Null_ptr, capacity_arg_token = 0,
                   status = VEX_STATUS_OK\<rparr>
        in if n = None \<or> d = None \<or> v = None then
             vex_set_status ctx VEX_STATUS_BAD_ALLOC None h3
           else
             (case vex_strdup (Some ''help'') h3 of (ln1, h4) \<Rightarrow>
              case vex_strdup (Some ''Print this help message'') h4 of (ds1, h5) \<Rightarrow>
              case ignore_result
                     (vex_add_arg ctx
                        \<lparr>description = ds1, long_name = ln1, short_name = CHR ''h'',
                         arg_type = VEX_ARG_TYPE_FLAG, max_count = 0\<rparr> h5) of
                None \<Rightarrow> None
              | Some (ctx1, h6) \<Rightarrow>
                  (case vex_strdup (Some ''version'') h6 of (ln2, h7) \<Rightarrow>
                   case vex_strdup (Some ''Print the version string'') h7 of (ds2, h8) \<Rightarrow>
                     ignore_result
                       (vex_add_arg ctx1
                          \<lparr>description = ds2, long_name = ln2, short_name = CHR ''v'',
                           arg_type = VEX_ARG_TYPE_FLAG, max_count = 0\<rparr> h8))))"

subsection \<open>vex_parse\<close>

text \<open>Sequencing: the first undefined behaviour or \<^verbatim>\<open>return false\<close> ends the function.\<close>

fun obind :: "'a outcome \<Rightarrow> ('a \<Rightarrow> 'b outcome) \<Rightarrow> 'b outcome" where
  "obind Undefined f = Undefined"
| "obind (Return_false ctx h) f = Return_false ctx h"
| "obind (Proceed x) f = f x"

text \<open>
  The locals of \<^verbatim>\<open>vex_parse\<close> that live across loop iterations. \<^verbatim>\<open>last_desc\<close> and
  \<^verbatim>\<open>last_token\<close> are indices or \<open>-1\<close>; \<open>None\<close> stands for \<open>-1\<close>. The counter
  \<^verbatim>\<open>token_count\<close> is written and never read; it is left out.
\<close>

record parse_locals =
  last_desc :: "nat option"
  last_token :: "nat option"
  parse_options :: bool

text \<open>\<open>s[i]\<close> for \<open>i\<close> up to the length of \<open>s\<close>; the character at the length is the terminator.\<close>

definition char_at :: "string \<Rightarrow> nat \<Rightarrow> char" where
  "char_at s i = (if i < length s then s ! i else NUL)"

text \<open>
  The \<^verbatim>\<open>switch\<close> that converts a text to a \<^verbatim>\<open>vex_value\<close> of a given type (it occurs four
  times in \<^verbatim>\<open>vex_parse\<close>); any other type leaves the value zero-initialised.
\<close>

definition value_of_type :: "int \<Rightarrow> string \<Rightarrow> heap \<Rightarrow> (vex_value \<times> heap) option" where
  "value_of_type ty s h =
     (if ty = VEX_ARG_TYPE_INT then
        (case atoi s of None \<Rightarrow> None | Some i \<Rightarrow> Some (Int_arg i, h))
      else if ty = VEX_ARG_TYPE_DUB then Some (Dub_arg (atof s), h)
      else if ty = VEX_ARG_TYPE_STR then
        (case vex_strdup (Some s) h of (p, h') \<Rightarrow> Some (Str_arg p, h'))
      else Some (zero_value, h))"

text \<open>
  Long option, the scan of the descriptors: \<open>s\<close> is \<^verbatim>\<open>&arg[2]\<close>, \<open>d\<close> the index of the
  head of the list. The result is the token filled in, the index matched (if any) and
  the schedule.
\<close>

fun long_option_lookup ::
  "vex_arg_desc list \<Rightarrow> nat \<Rightarrow> string \<Rightarrow> heap \<Rightarrow> (vex_arg_token \<times> nat option \<times> heap) option"
where
  "long_option_lookup [] d s h = Some (zero_token, None, h)"
| "long_option_lookup (e # es) d s h =
     (case strncmp (Some s) (long_name e) (strcspn_eq s) of
        None \<Rightarrow> None
      | Some r \<Rightarrow>
          if r = 0 then
            (case vex_strdup (long_name e) h of (ln, h') \<Rightarrow>
               Some (zero_token\<lparr>t_short_name := short_name e, t_long_name := ln,
                                t_arg_type := arg_type e\<rparr>, Some d, h'))
          else long_option_lookup es (Suc d) s h)"

text \<open>Long option, the value after \<open>=\<close> (l. 266-278).\<close>

definition long_option_value ::
  "vex_ctx \<Rightarrow> vex_arg_token \<Rightarrow> string \<Rightarrow> heap \<Rightarrow> (vex_arg_token \<times> heap) outcome" where
  "long_option_value ctx token arg h =
     (if t_arg_type token \<noteq> VEX_ARG_TYPE_FLAG then
        (case strchr arg (CHR ''='') of
           None \<Rightarrow> Proceed (token, h)
         | Some pch \<Rightarrow>
             (case value_of_type (t_arg_type token) (tl pch) h of
                None \<Rightarrow> Undefined
              | Some (v, h') \<Rightarrow> vec_token_add_value ctx token v h'))
      else Proceed (token, h))"

text \<open>Long option (l. 245-284): the result is the context, \<^verbatim>\<open>last_desc\<close>, \<^verbatim>\<open>last_token\<close>.\<close>

definition long_option ::
  "vex_ctx \<Rightarrow> string \<Rightarrow> heap \<Rightarrow> (vex_ctx \<times> nat option \<times> nat option \<times> heap) outcome" where
  "long_option ctx arg h =
     (case long_option_lookup (arg_desc ctx) 0 (drop 2 arg) h of
        None \<Rightarrow> Undefined
      | Some (token, ld, h1) \<Rightarrow>
          if t_long_name token = None then
            fail_with ctx VEX_STATUS_UNKNOWN_ARG (Some (''Unknown option: '' @ arg)) h1
          else
            obind (long_option_value ctx token arg h1) (\<lambda>(token', h2).
            obind (vex_add_token ctx token' h2) (\<lambda>(ctx', h3).
              Proceed (ctx', ld, Some (length (arg_token ctx') - 1), h3))))"

text \<open>Short option, the scan of the descriptors for the character \<open>c\<close> (l. 290-300).\<close>

fun short_option_lookup ::
  "vex_arg_desc list \<Rightarrow> nat \<Rightarrow> char \<Rightarrow> heap \<Rightarrow> vex_arg_token \<times> nat option \<times> heap" where
  "short_option_lookup [] d c h = (zero_token, None, h)"
| "short_option_lookup (e # es) d c h =
     (if c = short_name e then
        (case vex_strdup (long_name e) h of (ln, h') \<Rightarrow>
           (zero_token\<lparr>t_short_name := short_name e, t_long_name := ln,
                       t_arg_type := arg_type e\<rparr>, Some d, h'))
      else short_option_lookup es (Suc d) c h)"

text \<open>
  Short option cluster (l. 286-329): the loop over the characters from \<^verbatim>\<open>&arg[1]\<close>;
  \<open>c # cs\<close> is the text from the current character on. \<^verbatim>\<open>last_desc\<close> changes only
  when a descriptor matches.
\<close>

fun short_options ::
  "vex_ctx \<Rightarrow> nat option \<Rightarrow> nat option \<Rightarrow> string \<Rightarrow> heap \<Rightarrow>
   (vex_ctx \<times> nat option \<times> nat option \<times> heap) outcome" where
  "short_options ctx ld lt [] h = Proceed (ctx, ld, lt, h)"
| "short_options ctx ld lt (c # cs) h =
     (case short_option_lookup (arg_desc ctx) 0 c h of (token, m, h1) \<Rightarrow>
        let ld1 = (case m of None \<Rightarrow> ld | Some d \<Rightarrow> Some d) in
        if t_short_name token = NUL then
          (case lt of
             None \<Rightarrow> fail_with ctx VEX_STATUS_UNKNOWN_ARG (Some (''Unknown option: -'' @ [c])) h1
           | Some t \<Rightarrow>
               if length (arg_token ctx) \<le> t then Undefined
               else
                 let tk = arg_token ctx ! t in
                 if t_short_name tk \<noteq> NUL \<and> t_arg_type tk \<noteq> VEX_ARG_TYPE_FLAG then
                   (case value_of_type (t_arg_type tk) (c # cs) h1 of
                      None \<Rightarrow> Undefined
                    | Some (v, h2) \<Rightarrow>
                        obind (vec_token_add_value ctx tk v h2) (\<lambda>(tk', h3).
                          Proceed (ctx\<lparr>arg_token := (arg_token ctx)[t := tk']\<rparr>, ld1, lt, h3)))
                 else
                   fail_with ctx VEX_STATUS_UNKNOWN_ARG
                     (Some (''Unknown option: -'' @ [c])) h1)
        else
          obind (vex_add_token ctx token h1) (\<lambda>(ctx', h2).
            short_options ctx' ld1 (Some (length (arg_token ctx') - 1)) cs h2))"

text \<open>Free-standing value, the type inferred from the text (l. 333-348).\<close>

fun infer_type :: "int \<Rightarrow> string \<Rightarrow> int" where
  "infer_type ty [] = ty"
| "infer_type ty (c # cs) =
     (if \<not> isdigit c then
        (if c = CHR ''.'' then infer_type VEX_ARG_TYPE_DUB cs else VEX_ARG_TYPE_STR)
      else if ty \<noteq> VEX_ARG_TYPE_DUB then infer_type VEX_ARG_TYPE_INT cs
      else infer_type ty cs)"

text \<open>
  \<^verbatim>\<open>group_with_last_token\<close> (l. 350-355); reading \<^verbatim>\<open>arg_desc[last_desc]\<close> or
  \<^verbatim>\<open>arg_token[last_token]\<close> outside the stored elements is undefined.
\<close>

definition group_with_last_token :: "vex_ctx \<Rightarrow> parse_locals \<Rightarrow> bool option" where
  "group_with_last_token ctx ls =
     (case last_token ls of
        None \<Rightarrow> Some False
      | Some t \<Rightarrow>
          (case last_desc ls of
             None \<Rightarrow> None
           | Some d \<Rightarrow>
               if d < length (arg_desc ctx) \<and> t < length (arg_token ctx) then
                 Some (max_count (arg_desc ctx ! d) < 0 \<or>
                       int (length (t_arg (arg_token ctx ! t))) < max_count (arg_desc ctx ! d))
               else None))"

text \<open>Free-standing value (l. 332-386).\<close>

definition free_value ::
  "vex_ctx \<Rightarrow> parse_locals \<Rightarrow> string \<Rightarrow> heap \<Rightarrow> (vex_ctx \<times> parse_locals \<times> heap) outcome" where
  "free_value ctx ls arg h =
     (let type = infer_type VEX_ARG_TYPE_UNKNOWN arg in
      case group_with_last_token ctx ls of
        None \<Rightarrow> Undefined
      | Some grp \<Rightarrow>
          if parse_options ls \<and> grp then
            (case last_token ls of
               None \<Rightarrow> Undefined
             | Some t \<Rightarrow>
                 let token = arg_token ctx ! t in
                 if t_arg_type token \<noteq> type then
                   fail_with ctx VEX_STATUS_BAD_VALUE (Some ''Unexpected value'') h
                 else
                   (case value_of_type type arg h of
                      None \<Rightarrow> Undefined
                    | Some (v, h1) \<Rightarrow>
                        obind (vec_token_add_value ctx token v h1) (\<lambda>(token', h2).
                          Proceed (ctx\<lparr>arg_token := (arg_token ctx)[t := token']\<rparr>, ls, h2))))
          else
            (case value_of_type type arg h of
               None \<Rightarrow> Undefined
             | Some (v, h1) \<Rightarrow>
                 obind (vec_token_add_value ctx (zero_token\<lparr>t_arg_type := type\<rparr>) v h1)
                   (\<lambda>(token, h2).
                 obind (vex_add_token ctx token h2) (\<lambda>(ctx', h3).
                   Proceed (ctx', ls\<lparr>last_token := None, last_desc := None\<rparr>, h3)))))"

text \<open>One iteration of the loop over \<^verbatim>\<open>argv\<close> (l. 231-386).\<close>

definition parse_arg ::
  "vex_ctx \<Rightarrow> parse_locals \<Rightarrow> string option \<Rightarrow> heap \<Rightarrow>
   (vex_ctx \<times> parse_locals \<times> heap) outcome" where
  "parse_arg ctx ls a h =
     (case a of
        None \<Rightarrow> Proceed (ctx, ls, h)
      | Some arg \<Rightarrow>
          if strcmp (Some arg) (Some ''--'') = Some 0 then
            Proceed (ctx, ls\<lparr>parse_options := False\<rparr>, h)
          else if parse_options ls \<and> char_at arg 0 = CHR ''-'' then
            (if char_at arg 1 = CHR ''-'' then
               obind (long_option ctx arg h) (\<lambda>(ctx', ld, lt, h').
                 Proceed (ctx', ls\<lparr>last_desc := ld, last_token := lt\<rparr>, h'))
             else
               obind (short_options ctx None None (drop 1 arg) h) (\<lambda>(ctx', ld, lt, h').
                 Proceed (ctx', ls\<lparr>last_desc := ld, last_token := lt\<rparr>, h')))
          else free_value ctx ls arg h)"

fun parse_args ::
  "vex_ctx \<Rightarrow> parse_locals \<Rightarrow> string option list \<Rightarrow> heap \<Rightarrow>
   (vex_ctx \<times> parse_locals \<times> heap) outcome" where
  "parse_args ctx ls [] h = Proceed (ctx, ls, h)"
| "parse_args ctx ls (a # as) h =
     obind (parse_arg ctx ls a h) (\<lambda>(ctx', ls', h'). parse_args ctx' ls' as h')"

text \<open>
  \<^verbatim>\<open>vex_parse\<close>, l. 220-223: a token buffer that is not null is freed, and the pointer
  is kept as it is; freeing a buffer that has been freed already is undefined. The
  count and the capacity become 0.
\<close>

definition clear_tokens :: "vex_ctx \<Rightarrow> vex_ctx option" where
  "clear_tokens ctx =
     (case arg_token_ptr ctx of
        Null_ptr \<Rightarrow> Some (ctx\<lparr>arg_token := [], capacity_arg_token := 0\<rparr>)
      | Live_ptr \<Rightarrow>
          Some (ctx\<lparr>arg_token_ptr := Freed_ptr, arg_token := [], capacity_arg_token := 0\<rparr>)
      | Freed_ptr \<Rightarrow> None)"

text \<open>
  \<^verbatim>\<open>vex_parse\<close>; \<^verbatim>\<open>argc\<close> is the length of \<open>argv\<close>, and the loop starts at index 1.
  \<open>vex_parse_loop\<close> is the function up to the end of its loop, run over the arguments
  \<open>args\<close> (those after \<^verbatim>\<open>argv[0]\<close>), with the locals it ends in; \<open>Proceed\<close> is
  \<^verbatim>\<open>return true\<close>.
\<close>

definition vex_parse_loop ::
  "vex_ctx \<Rightarrow> string option list \<Rightarrow> heap \<Rightarrow>
   (vex_ctx \<times> parse_locals \<times> heap) outcome" where
  "vex_parse_loop ctx args h =
     (case clear_tokens ctx of
        None \<Rightarrow> Undefined
      | Some ctx0 \<Rightarrow>
          parse_args ctx0
            \<lparr>last_desc = None, last_token = None, parse_options = True\<rparr> args h)"

definition vex_parse ::
  "vex_ctx \<Rightarrow> string option list \<Rightarrow> heap \<Rightarrow> (vex_ctx \<times> heap) outcome" where
  "vex_parse ctx argv h =
     obind (vex_parse_loop ctx (drop 1 argv) h) (\<lambda>(ctx', ls, h'). Proceed (ctx', h'))"

subsection \<open>Result accessors\<close>

definition vex_token_count :: "vex_ctx \<Rightarrow> int" where
  "vex_token_count ctx = int (length (arg_token ctx))"

definition vex_get_token :: "vex_ctx \<Rightarrow> int \<Rightarrow> vex_arg_token option" where
  "vex_get_token ctx num =
     (if num < 0 \<or> num \<ge> vex_token_count ctx then None
      else Some (arg_token ctx ! nat num))"

text \<open>
  The loop of \<^verbatim>\<open>vex_arg_found\<close> over the tokens; \<^verbatim>\<open>strcmp\<close> runs only for a name
  longer than one character.
\<close>

fun arg_found_loop :: "vex_arg_token list \<Rightarrow> string \<Rightarrow> bool option" where
  "arg_found_loop [] nm = Some False"
| "arg_found_loop (token # ts) nm =
     (if length nm = 1 \<and> char_at nm 0 = t_short_name token then Some True
      else if length nm > 1 then
        (case strcmp (Some nm) (t_long_name token) of
           None \<Rightarrow> None
         | Some r \<Rightarrow> if r = 0 then Some True else arg_found_loop ts nm)
      else arg_found_loop ts nm)"

definition vex_arg_found :: "vex_ctx \<Rightarrow> string option \<Rightarrow> bool option" where
  "vex_arg_found ctx nm =
     (case nm of None \<Rightarrow> Some False | Some n \<Rightarrow> arg_found_loop (arg_token ctx) n)"

subsection \<open>Notions used in the statements\<close>

text \<open>A schedule on which no allocation request fails.\<close>

definition no_failure :: "heap \<Rightarrow> bool" where
  "no_failure h = (\<forall>ok\<in>set h. ok)"

text \<open>Two contexts that differ at most in the token buffer, its pointer and its capacity.\<close>

definition same_but_tokens :: "vex_ctx \<Rightarrow> vex_ctx \<Rightarrow> bool" where
  "same_but_tokens ctx ctx' =
     (\<exists>ts c p. ctx' = ctx\<lparr>arg_token := ts, capacity_arg_token := c, arg_token_ptr := p\<rparr>)"

text \<open>
  The context \<^verbatim>\<open>vex_init\<close> returns for the program \<^verbatim>\<open>prog\<close>, with the two default
  options \<^verbatim>\<open>-h/--help\<close> and \<^verbatim>\<open>-v/--version\<close>.
\<close>

definition default_ctx :: vex_ctx where
  "default_ctx =
     \<lparr>name = Some ''prog'', help_msg = None, status_msg = None,
      ctx_description = Some ''demo'', version = Some ''1.0'',
      arg_desc =
        [\<lparr>description = Some ''Print this help message'', long_name = Some ''help'',
          short_name = CHR ''h'', arg_type = VEX_ARG_TYPE_FLAG, max_count = 0\<rparr>,
         \<lparr>description = Some ''Print the version string'', long_name = Some ''version'',
          short_name = CHR ''v'', arg_type = VEX_ARG_TYPE_FLAG, max_count = 0\<rparr>],
      capacity_arg_desc = 2, arg_token = [], arg_token_ptr = Null_ptr,
      capacity_arg_token = 0, status = VEX_STATUS_OK\<rparr>"

text \<open>
  The value the conversion \<^verbatim>\<open>switch\<close> yields for a text when the text converts and
  the copy of a string is allocated.
\<close>

definition text_value :: "int \<Rightarrow> string \<Rightarrow> vex_value" where
  "text_value ty s =
     (if ty = VEX_ARG_TYPE_INT then (case atoi s of None \<Rightarrow> zero_value | Some i \<Rightarrow> Int_arg i)
      else if ty = VEX_ARG_TYPE_DUB then Dub_arg (atof s)
      else if ty = VEX_ARG_TYPE_STR then Str_arg (Some s)
      else zero_value)"

text \<open>The token that l. 372-381 build for a free-standing value.\<close>

definition free_token :: "string \<Rightarrow> vex_arg_token" where
  "free_token s =
     \<lparr>t_long_name = None, t_short_name = NUL,
      t_arg = [text_value (infer_type VEX_ARG_TYPE_UNKNOWN s) s],
      t_arg_type = infer_type VEX_ARG_TYPE_UNKNOWN s\<rparr>"

text \<open>
  The locals index stored elements: when \<^verbatim>\<open>last_token\<close> is not \<open>-1\<close> it is the index of
  a stored token, and \<^verbatim>\<open>last_desc\<close> the index of a stored descriptor.
\<close>

definition locals_ok :: "vex_ctx \<Rightarrow> parse_locals \<Rightarrow> bool" where
  "locals_ok ctx ls =
     (case last_token ls of
        None \<Rightarrow> True
      | Some t \<Rightarrow> t < length (arg_token ctx) \<and>
                  (case last_desc ls of None \<Rightarrow> False | Some d \<Rightarrow> d < length (arg_desc ctx)))"


text \<open>
  The default context after \<^verbatim>\<open>-c/--count\<close> has been registered as an Integer option
  that takes one value.
\<close>

definition count_ctx :: vex_ctx where
  "count_ctx =
     default_ctx\<lparr>capacity_arg_desc := 4,
                 arg_desc := arg_desc default_ctx @
                   [\<lparr>description = Some ''Number of runs'', long_name = Some ''count'',
                     short_name = CHR ''c'', arg_type = VEX_ARG_TYPE_INT,
                     max_count = 1\<rparr>]\<rparr>"

text \<open>The default context after the flags \<^verbatim>\<open>-a/--all\<close> and \<^verbatim>\<open>-b/--brief\<close> have been registered.\<close>

definition ab_ctx :: vex_ctx where
  "ab_ctx =
     default_ctx\<lparr>capacity_arg_desc := 4,
                 arg_desc := arg_desc default_ctx @
                   [\<lparr>description = Some ''Show all'', long_name = Some ''all'',
                     short_name = CHR ''a'', arg_type = VEX_ARG_TYPE_FLAG, max_count = 0\<rparr>,
                    \<lparr>description = Some ''Be brief'', long_name = Some ''brief'',
                     short_name = CHR ''b'', arg_type = VEX_ARG_TYPE_FLAG, max_count = 0\<rparr>]\<rparr>"

text \<open>
  The test of l. 251 for a supplied long-option name \<open>nm\<close> (the text between \<^verbatim>\<open>--\<close> and
  the first \<^verbatim>\<open>=\<close>) against a descriptor with a long name: \<^verbatim>\<open>strncmp\<close> over the length
  of \<open>nm\<close> is zero exactly when the long name begins with \<open>nm\<close>.
\<close>

definition long_match :: "string \<Rightarrow> vex_arg_desc \<Rightarrow> bool" where
  "long_match nm e = (case long_name e of None \<Rightarrow> False | Some ln \<Rightarrow> prefix nm ln)"

text \<open>The token l. 252-254 fill in for a matching descriptor.\<close>

definition option_token :: "vex_arg_desc \<Rightarrow> vex_arg_token" where
  "option_token e =
     \<lparr>t_long_name = long_name e, t_short_name = short_name e, t_arg = [],
      t_arg_type = arg_type e\<rparr>"

text \<open>
  The default context after \<^verbatim>\<open>-r/--counter\<close> (String) and then \<^verbatim>\<open>-c/--count\<close> (Integer)
  have been registered.
\<close>

definition counter_ctx :: vex_ctx where
  "counter_ctx =
     default_ctx\<lparr>capacity_arg_desc := 4,
                 arg_desc := arg_desc default_ctx @
                   [\<lparr>description = Some ''Name of the counter'', long_name = Some ''counter'',
                     short_name = CHR ''r'', arg_type = VEX_ARG_TYPE_STR, max_count = 1\<rparr>,
                    \<lparr>description = Some ''Number of runs'', long_name = Some ''count'',
                     short_name = CHR ''c'', arg_type = VEX_ARG_TYPE_INT,
                     max_count = 1\<rparr>]\<rparr>"

text \<open>
  The kind of a stored token is resolved, or the token is the one built for an empty
  free-standing argument and the empty string is among the arguments \<open>args\<close>.
\<close>

definition resolved :: "int \<Rightarrow> bool" where
  "resolved ty =
     (ty \<in> {VEX_ARG_TYPE_FLAG, VEX_ARG_TYPE_INT, VEX_ARG_TYPE_DUB, VEX_ARG_TYPE_STR})"

definition kind_ok :: "string option list \<Rightarrow> vex_arg_token \<Rightarrow> bool" where
  "kind_ok args t = (resolved (t_arg_type t) \<or> (t = free_token [] \<and> Some [] \<in> set args))"

text \<open>
  The invariant of the loop of \<^verbatim>\<open>vex_parse\<close> for the kinds of tokens: every stored token
  has a resolved kind or is the token of an empty free-standing argument, and
  \<^verbatim>\<open>last_token\<close>, when it is not \<open>-1\<close>, is the index of a stored token of a resolved kind
  (the token of an option).
\<close>

definition tokens_ok :: "string option list \<Rightarrow> vex_ctx \<Rightarrow> nat option \<Rightarrow> bool" where
  "tokens_ok args ctx lt =
     (list_all (kind_ok args) (arg_token ctx) \<and>
      (case lt of
         None \<Rightarrow> True
       | Some i \<Rightarrow> i < length (arg_token ctx) \<and> resolved (t_arg_type (arg_token ctx ! i))))"

text \<open>
  The token buffer can take a token: its pointer is live, or it is null and the buffer
  is full (so that the resize loop runs first).
\<close>

definition buffer_ok :: "vex_ctx \<Rightarrow> bool" where
  "buffer_ok ctx =
     (arg_token_ptr ctx = Live_ptr \<or>
      (arg_token_ptr ctx = Null_ptr \<and> capacity_arg_token ctx \<le> length (arg_token ctx)))"

text \<open>
  The token l. 252-278 build for a matching descriptor, where \<open>sfx\<close> is the rest of the
  argument after the supplied name: empty, or \<^verbatim>\<open>=\<close> followed by the value text.
\<close>

definition long_option_token :: "vex_arg_desc \<Rightarrow> string \<Rightarrow> vex_arg_token" where
  "long_option_token e sfx =
     (option_token e)
       \<lparr>t_arg := (if arg_type e \<noteq> VEX_ARG_TYPE_FLAG \<and> sfx \<noteq> []
                  then [text_value (arg_type e) (tl sfx)] else [])\<rparr>"

section \<open>Properties\<close>

subsection \<open>Basic facts\<close>

lemma vex_init_default:
  "vex_init \<lparr>info_name = Some ''prog'', info_version = Some ''1.0'',
             info_description = Some ''demo''\<rparr> [] = Some (default_ctx, [])"
  by code_simp

lemma str_compare_eq [simp]: "str_compare a b = 0 \<longleftrightarrow> a = b"
  by (induction a b rule: str_compare.induct) auto

lemma same_but_tokensI:
  "ctx' = ctx\<lparr>arg_token := ts, capacity_arg_token := c, arg_token_ptr := p\<rparr> \<Longrightarrow>
   same_but_tokens ctx ctx'"
  unfolding same_but_tokens_def by blast

lemma same_but_tokens_refl [simp]: "same_but_tokens ctx ctx"
  by (rule same_but_tokensI
        [where ts = "arg_token ctx" and c = "capacity_arg_token ctx"
           and p = "arg_token_ptr ctx"]) simp

lemma same_but_tokens_trans:
  "same_but_tokens a b \<Longrightarrow> same_but_tokens b c \<Longrightarrow> same_but_tokens a c"
  unfolding same_but_tokens_def by (elim exE) (simp, blast)

lemma same_but_tokens_upd [simp]:
  "same_but_tokens ctx (ctx\<lparr>arg_token := ts\<rparr>)"
  "same_but_tokens ctx
     (ctx\<lparr>capacity_arg_token := c, arg_token_ptr := p, arg_token := ts\<rparr>)"
  by (rule same_but_tokensI
        [where ts = ts and c = "capacity_arg_token ctx" and p = "arg_token_ptr ctx"], simp)
     (rule same_but_tokensI [where ts = ts and c = c and p = p], simp)

lemma same_but_tokens_fields:
  "same_but_tokens ctx ctx' \<Longrightarrow>
     status ctx' = status ctx \<and> status_msg ctx' = status_msg ctx \<and>
     arg_desc ctx' = arg_desc ctx \<and> capacity_arg_desc ctx' = capacity_arg_desc ctx \<and>
     help_msg ctx' = help_msg ctx \<and> name ctx' = name ctx \<and> version ctx' = version ctx \<and>
     ctx_description ctx' = ctx_description ctx"
  unfolding same_but_tokens_def by auto

lemma obind_eq_Proceed:
  "obind m f = Proceed x \<longleftrightarrow> (\<exists>y. m = Proceed y \<and> f y = Proceed x)"
  by (cases m) auto

lemma obind_eq_Return_false:
  "obind m f = Return_false c h \<longleftrightarrow>
     m = Return_false c h \<or> (\<exists>y. m = Proceed y \<and> f y = Return_false c h)"
  by (cases m) auto

lemma obind_eq_Undefined:
  "obind m f = Undefined \<longleftrightarrow> m = Undefined \<or> (\<exists>y. m = Proceed y \<and> f y = Undefined)"
  by (cases m) auto

lemma fail_with_not_Proceed [simp]: "fail_with ctx st msg h \<noteq> Proceed x"
  by (simp add: fail_with_def split: option.splits prod.splits)

subsection \<open>vex_arg_found\<close>

lemma arg_found_loop_empty: "arg_found_loop ts [] = Some False"
  by (induction ts) auto

text \<open>
  Claim C10. \<^verbatim>\<open>vex_arg_found\<close> called with a null name pointer or with the empty
  string returns false, whatever tokens the context holds (and its behaviour is
  defined there: no \<^verbatim>\<open>strcmp\<close> is reached).
\<close>

theorem vex_arg_found_null_or_empty:
  "vex_arg_found ctx None = Some False \<and> vex_arg_found ctx (Some []) = Some False"
  by (simp add: vex_arg_found_def arg_found_loop_empty)

subsection \<open>vex_add_arg\<close>

text \<open>
  Claim C9. Whenever \<^verbatim>\<open>vex_add_arg\<close> returns false (invalid short name, missing
  name, duplicate or allocation failure), the registry is unchanged: the number of
  descriptors and every stored descriptor are as before the call.
\<close>

theorem vex_add_arg_false_keeps_registry:
  "vex_add_arg ctx desc h = Return_false ctx' h' \<Longrightarrow> arg_desc ctx' = arg_desc ctx"
  by (auto simp: vex_add_arg_def fail_with_def vex_set_status_def
           split: if_splits option.splits prod.splits bool.splits)

text \<open>
  The theorem at the default context, when the reallocation of the full descriptor
  buffer fails.
\<close>

theorem vex_add_arg_false_keeps_registry_witness:
  "vex_add_arg default_ctx
     \<lparr>description = Some ''Number of runs'', long_name = Some ''count'',
      short_name = CHR ''c'', arg_type = VEX_ARG_TYPE_INT, max_count = 1\<rparr> [False]
   = Return_false (default_ctx\<lparr>status := VEX_STATUS_BAD_ALLOC\<rparr>) []
   \<and> arg_desc (default_ctx\<lparr>status := VEX_STATUS_BAD_ALLOC\<rparr>) = arg_desc default_ctx"
proof -
  have run: "vex_add_arg default_ctx
     \<lparr>description = Some ''Number of runs'', long_name = Some ''count'',
      short_name = CHR ''c'', arg_type = VEX_ARG_TYPE_INT, max_count = 1\<rparr> [False]
   = Return_false (default_ctx\<lparr>status := VEX_STATUS_BAD_ALLOC\<rparr>) []"
    by code_simp
  from vex_add_arg_false_keeps_registry [OF run] run show ?thesis by simp
qed

lemma isalpha_NUL [simp]: "\<not> isalpha NUL"
  by (simp add: isalpha_def)

lemma find_duplicate_defined:
  assumes "\<forall>e\<in>set es. long_name e \<noteq> None" and "long_name desc \<noteq> None"
  shows "find_duplicate es desc =
           Some (\<exists>e\<in>set es. short_name e = short_name desc \<or> long_name e = long_name desc)"
  using assms by (induction es) (auto simp: strcmp_def)

lemma fail_with_alloc_ok:
  "fst (alloc h) \<Longrightarrow> st \<noteq> 0 \<Longrightarrow> st \<noteq> 1 \<Longrightarrow>
   fail_with ctx st (Some m) h =
     Return_false
       (ctx\<lparr>status := st, status_msg := Some (takeWhile (\<lambda>c. c \<noteq> NUL) (take 255 m))\<rparr>)
       (snd (alloc h))"
  by (cases "alloc h") (simp add: fail_with_def vex_set_status_def)

text \<open>
  Duplicates among descriptors that all have a long name: for every registry and every
  descriptor whose short name equals a registered short name, or whose long name
  equals a registered long name, \<^verbatim>\<open>vex_add_arg\<close> returns false with status
  \<^verbatim>\<open>VEX_STATUS_BAD_VALUE\<close> and changes nothing but the status and its message, when the
  long names involved are strings (not null), as \<^verbatim>\<open>strcmp\<close> requires, and the buffer
  of the status message is allocated.
\<close>

lemma vex_add_arg_rejects_duplicate:
  assumes names: "\<forall>e\<in>set (arg_desc ctx). long_name e \<noteq> None" "long_name desc \<noteq> None"
    and dup: "\<exists>e\<in>set (arg_desc ctx).
                short_name e = short_name desc \<or> long_name e = long_name desc"
    and mem: "fst (alloc h)"
  shows "\<exists>msg. vex_add_arg ctx desc h =
           Return_false (ctx\<lparr>status := VEX_STATUS_BAD_VALUE, status_msg := Some msg\<rparr>)
             (snd (alloc h))"
proof (cases "isalpha (short_name desc)")
  case False
  then show ?thesis
    by (simp add: vex_add_arg_def fail_with_alloc_ok [OF mem]) blast
next
  case True
  then have nz: "short_name desc \<noteq> NUL" by auto
  have "find_duplicate (arg_desc ctx) desc = Some True"
    using find_duplicate_defined [OF names] dup by simp
  with True nz show ?thesis
    by (simp add: vex_add_arg_def fail_with_alloc_ok [OF mem]) blast
qed

text \<open>
  An instance at the default context, for a new option \<^verbatim>\<open>-x/--help\<close> whose long name
  is the one of the registered \<^verbatim>\<open>-h/--help\<close>.
\<close>

lemma vex_add_arg_rejects_duplicate_example:
  "\<exists>msg. vex_add_arg default_ctx
           \<lparr>description = None, long_name = Some ''help'', short_name = CHR ''x'',
            arg_type = VEX_ARG_TYPE_STR, max_count = 1\<rparr> []
         = Return_false
             (default_ctx\<lparr>status := VEX_STATUS_BAD_VALUE, status_msg := Some msg\<rparr>) []"
proof -
  let ?d = "\<lparr>description = None, long_name = Some ''help'', short_name = CHR ''x'',
             arg_type = VEX_ARG_TYPE_STR, max_count = 1\<rparr>"
  have names: "\<forall>e\<in>set (arg_desc default_ctx). long_name e \<noteq> None" "long_name ?d \<noteq> None"
    by (simp_all add: default_ctx_def)
  have dup: "\<exists>e\<in>set (arg_desc default_ctx).
               short_name e = short_name ?d \<or> long_name e = long_name ?d"
    by (simp add: default_ctx_def)
  have mem: "fst (alloc [])" by (simp add: alloc_def)
  from vex_add_arg_rejects_duplicate [OF names dup mem] show ?thesis
    by (simp add: alloc_def)
qed

text \<open>
  Claim C7. Registering a descriptor whose short name equals a registered short name,
  or whose long name equals a registered long name, fails with
  \<^verbatim>\<open>VEX_STATUS_BAD_VALUE\<close>, in whatever order the two options are registered. The code
  misses this for a descriptor without a long name, which l. 174 provides for: on the
  default context the short-only descriptor \<^verbatim>\<open>-v\<close> duplicates the second entry, and the
  scan first compares its null long name with \<^verbatim>\<open>help\<close> by \<^verbatim>\<open>strcmp\<close> (l. 182), which is
  undefined; the short-only descriptor \<^verbatim>\<open>-h\<close> duplicates the first entry and is
  rejected. So the outcome depends on the order of registration.
\<close>

theorem vex_add_arg_short_only_duplicate:
  "vex_add_arg default_ctx
     \<lparr>description = Some ''Verbose'', long_name = None, short_name = CHR ''v'',
      arg_type = VEX_ARG_TYPE_FLAG, max_count = 0\<rparr> [] = Undefined
   \<and> vex_add_arg default_ctx
       \<lparr>description = Some ''Host'', long_name = None, short_name = CHR ''h'',
        arg_type = VEX_ARG_TYPE_FLAG, max_count = 0\<rparr> []
     = Return_false
         (default_ctx\<lparr>status := VEX_STATUS_BAD_VALUE,
                      status_msg := Some ''Duplicate arguments: -h''\<rparr>) []"
  by code_simp

subsection \<open>A successful call leaves the status alone\<close>

lemma vex_add_arg_Proceed_status:
  "vex_add_arg ctx desc h = Proceed (ctx', h') \<Longrightarrow>
     status ctx' = status ctx \<and> status_msg ctx' = status_msg ctx"
  by (auto simp: vex_add_arg_def split: if_splits option.splits prod.splits bool.splits)

lemma vex_add_token_Proceed:
  "vex_add_token ctx tok h = Proceed (ctx', h') \<Longrightarrow>
     \<exists>c. ctx' = ctx\<lparr>capacity_arg_token := c, arg_token_ptr := Live_ptr,
                    arg_token := arg_token ctx @ [tok]\<rparr>"
proof -
  assume a: "vex_add_token ctx tok h = Proceed (ctx', h')"
  obtain ok cap h1 where
    "grow (length (arg_token ctx)) (capacity_arg_token ctx) h = (ok, cap, h1)"
    by (cases "grow (length (arg_token ctx)) (capacity_arg_token ctx) h")
  with a have "ctx' = ctx\<lparr>capacity_arg_token := cap, arg_token_ptr := Live_ptr,
                          arg_token := arg_token ctx @ [tok]\<rparr>"
    by (auto simp: vex_add_token_def Let_def split: if_splits)
  then show ?thesis by blast
qed

lemma vec_token_add_value_Proceed:
  "vec_token_add_value ctx tok v h = Proceed (tok', h') \<Longrightarrow>
     tok' = tok\<lparr>t_arg := t_arg tok @ [v]\<rparr>"
  by (auto simp: vec_token_add_value_def split: prod.splits if_splits)

lemma vex_add_token_same:
  "vex_add_token ctx tok h = Proceed (ctx', h') \<Longrightarrow> same_but_tokens ctx ctx'"
  by (drule vex_add_token_Proceed) auto

lemma long_option_same:
  "long_option ctx arg h = Proceed (ctx', ld, lt, h') \<Longrightarrow> same_but_tokens ctx ctx'"
  by (auto simp: long_option_def obind_eq_Proceed split: option.splits prod.splits if_splits
           dest: vex_add_token_same)

lemma short_options_same:
  "short_options ctx ld lt s h = Proceed (ctx', ld', lt', h') \<Longrightarrow> same_but_tokens ctx ctx'"
proof (induction s arbitrary: ctx ld lt h)
  case Nil
  then show ?case by simp
next
  case (Cons c cs)
  show ?case
  proof (cases "short_option_lookup (arg_desc ctx) 0 c h")
    case (fields token m h1)
    show ?thesis
    proof (cases "t_short_name token = NUL")
      case True
      with Cons.prems fields show ?thesis
        by (auto simp: obind_eq_Proceed Let_def split: if_splits option.splits)
    next
      case False
      with Cons.prems fields obtain ctx1 h2 ld1 where
        add: "vex_add_token ctx token h1 = Proceed (ctx1, h2)" and
        rest: "short_options ctx1 ld1 (Some (length (arg_token ctx1) - 1)) cs h2
                 = Proceed (ctx', ld', lt', h')"
        by (auto simp: obind_eq_Proceed Let_def)
      from vex_add_token_same [OF add] Cons.IH [OF rest] show ?thesis
        by (rule same_but_tokens_trans)
    qed
  qed
qed

lemma free_value_same:
  "free_value ctx ls arg h = Proceed (ctx', ls', h') \<Longrightarrow> same_but_tokens ctx ctx'"
  by (auto simp: free_value_def obind_eq_Proceed Let_def
           split: prod.splits if_splits option.splits dest: vex_add_token_same)

lemma parse_arg_same:
  "parse_arg ctx ls a h = Proceed (ctx', ls', h') \<Longrightarrow> same_but_tokens ctx ctx'"
  by (auto simp: parse_arg_def obind_eq_Proceed split: option.splits if_splits
           dest: long_option_same short_options_same free_value_same)

lemma parse_args_same:
  "parse_args ctx ls as h = Proceed (ctx', ls', h') \<Longrightarrow> same_but_tokens ctx ctx'"
proof (induction as arbitrary: ctx ls h)
  case Nil
  then show ?case by simp
next
  case (Cons a as)
  then obtain ctx1 ls1 h1 where
    step: "parse_arg ctx ls a h = Proceed (ctx1, ls1, h1)" and
    rest: "parse_args ctx1 ls1 as h1 = Proceed (ctx', ls', h')"
    by (auto simp: obind_eq_Proceed)
  from parse_arg_same [OF step] Cons.IH [OF rest] show ?case
    by (rule same_but_tokens_trans)
qed

lemma vex_parse_same:
  "vex_parse ctx argv h = Proceed (ctx', h') \<Longrightarrow> same_but_tokens ctx ctx'"
proof -
  assume "vex_parse ctx argv h = Proceed (ctx', h')"
  then obtain ctx0 ls' where
    c: "clear_tokens ctx = Some ctx0" and
    p: "parse_args ctx0 \<lparr>last_desc = None, last_token = None, parse_options = True\<rparr>
          (drop 1 argv) h = Proceed (ctx', ls', h')"
    by (auto simp: vex_parse_def vex_parse_loop_def obind_eq_Proceed split: option.splits)
  from c have "same_but_tokens ctx ctx0"
    by (auto simp: clear_tokens_def split: pointer.splits
             intro: same_but_tokensI [where ts = "[]" and c = 0 and p = "arg_token_ptr ctx"]
                    same_but_tokensI [where ts = "[]" and c = 0 and p = Freed_ptr])
  from this parse_args_same [OF p] show ?thesis by (rule same_but_tokens_trans)
qed

text \<open>
  Claim C8 as stated fails: neither \<^verbatim>\<open>vex_add_arg\<close> nor \<^verbatim>\<open>vex_parse\<close> writes
  \<^verbatim>\<open>VEX_STATUS_OK\<close>. After the registration of \<^verbatim>\<open>-1\<close> has failed on the default context,
  the successful registration of \<^verbatim>\<open>-c/--count\<close> and the successful parse of \<^verbatim>\<open>-h\<close>
  both leave the status at \<^verbatim>\<open>VEX_STATUS_BAD_VALUE\<close>.
\<close>

theorem status_reset_counterexample:
  "vex_add_arg default_ctx
     \<lparr>description = None, long_name = Some ''one'', short_name = CHR ''1'',
      arg_type = VEX_ARG_TYPE_FLAG, max_count = 0\<rparr> []
   = Return_false
       (default_ctx\<lparr>status := VEX_STATUS_BAD_VALUE,
                    status_msg := Some ''Invalid short arg name: 1''\<rparr>) []
   \<and> vex_add_arg
       (default_ctx\<lparr>status := VEX_STATUS_BAD_VALUE,
                    status_msg := Some ''Invalid short arg name: 1''\<rparr>)
       \<lparr>description = None, long_name = Some ''count'', short_name = CHR ''c'',
        arg_type = VEX_ARG_TYPE_INT, max_count = 1\<rparr> []
     = Proceed
         (default_ctx\<lparr>status := VEX_STATUS_BAD_VALUE,
                      status_msg := Some ''Invalid short arg name: 1'',
                      capacity_arg_desc := 4,
                      arg_desc := arg_desc default_ctx @
                        [\<lparr>description = None, long_name = Some ''count'',
                          short_name = CHR ''c'', arg_type = VEX_ARG_TYPE_INT,
                          max_count = 1\<rparr>]\<rparr>, [])
   \<and> vex_parse
       (default_ctx\<lparr>status := VEX_STATUS_BAD_VALUE,
                    status_msg := Some ''Invalid short arg name: 1''\<rparr>)
       [Some ''prog'', Some ''-h''] []
     = Proceed
         (default_ctx\<lparr>status := VEX_STATUS_BAD_VALUE,
                      status_msg := Some ''Invalid short arg name: 1'',
                      capacity_arg_token := 1, arg_token_ptr := Live_ptr,
                      arg_token := [\<lparr>t_long_name = Some ''help'', t_short_name = CHR ''h'',
                                     t_arg = [], t_arg_type = VEX_ARG_TYPE_FLAG\<rparr>]\<rparr>, [])
   \<and> VEX_STATUS_BAD_VALUE \<noteq> VEX_STATUS_OK"
  by code_simp

text \<open>
  Claim C8, amended. No mutating operation resets the status: a call of
  \<^verbatim>\<open>vex_add_arg\<close> or \<^verbatim>\<open>vex_parse\<close> that returns true leaves the status and its message
  exactly as they were before the call, so an error left by an earlier failed call
  stays in place.
\<close>

theorem success_keeps_status:
  "(vex_add_arg ctx desc h = Proceed (ctx1, h1) \<longrightarrow>
      status ctx1 = status ctx \<and> status_msg ctx1 = status_msg ctx) \<and>
   (vex_parse ctx argv h = Proceed (ctx2, h2) \<longrightarrow>
      status ctx2 = status ctx \<and> status_msg ctx2 = status_msg ctx)"
proof (rule conjI; rule impI)
  assume "vex_add_arg ctx desc h = Proceed (ctx1, h1)"
  then show "status ctx1 = status ctx \<and> status_msg ctx1 = status_msg ctx"
    by (rule vex_add_arg_Proceed_status)
next
  assume prs: "vex_parse ctx argv h = Proceed (ctx2, h2)"
  from same_but_tokens_fields [OF vex_parse_same [OF prs]]
  show "status ctx2 = status ctx \<and> status_msg ctx2 = status_msg ctx"
    by simp
qed

theorem success_keeps_status_witness:
  "status
     (default_ctx\<lparr>status := VEX_STATUS_BAD_VALUE,
                  status_msg := Some ''Invalid short arg name: 1'',
                  capacity_arg_desc := 4,
                  arg_desc := arg_desc default_ctx @
                    [\<lparr>description = None, long_name = Some ''count'',
                      short_name = CHR ''c'', arg_type = VEX_ARG_TYPE_INT,
                      max_count = 1\<rparr>]\<rparr>) = VEX_STATUS_BAD_VALUE
   \<and> status
       (default_ctx\<lparr>status := VEX_STATUS_BAD_VALUE,
                    status_msg := Some ''Invalid short arg name: 1'',
                    capacity_arg_token := 1, arg_token_ptr := Live_ptr,
                    arg_token := [\<lparr>t_long_name = Some ''help'', t_short_name = CHR ''h'',
                                   t_arg = [], t_arg_type = VEX_ARG_TYPE_FLAG\<rparr>]\<rparr>)
     = VEX_STATUS_BAD_VALUE"
proof -
  let ?stale = "default_ctx\<lparr>status := VEX_STATUS_BAD_VALUE,
                            status_msg := Some ''Invalid short arg name: 1''\<rparr>"
  let ?d = "\<lparr>description = None, long_name = Some ''count'', short_name = CHR ''c'',
             arg_type = VEX_ARG_TYPE_INT, max_count = 1\<rparr>"
  let ?c1 = "default_ctx\<lparr>status := VEX_STATUS_BAD_VALUE,
                  status_msg := Some ''Invalid short arg name: 1'',
                  capacity_arg_desc := 4,
                  arg_desc := arg_desc default_ctx @ [?d]\<rparr>"
  let ?c2 = "default_ctx\<lparr>status := VEX_STATUS_BAD_VALUE,
                    status_msg := Some ''Invalid short arg name: 1'',
                    capacity_arg_token := 1, arg_token_ptr := Live_ptr,
                    arg_token := [\<lparr>t_long_name = Some ''help'', t_short_name = CHR ''h'',
                                   t_arg = [], t_arg_type = VEX_ARG_TYPE_FLAG\<rparr>]\<rparr>"
  have reg: "vex_add_arg ?stale ?d [] = Proceed (?c1, [])"
    by code_simp
  have prs: "vex_parse ?stale [Some ''prog'', Some ''-h''] [] = Proceed (?c2, [])"
    by code_simp
  from success_keeps_status [of ?stale ?d "[]" ?c1 "[]" "[Some ''prog'', Some ''-h'']" ?c2 "[]"]
       reg prs
  show ?thesis by simp
qed


subsection \<open>Runs on which no allocation fails\<close>

lemma no_failure_alloc [simp]: "no_failure h \<Longrightarrow> alloc h = (True, tl h)"
  by (cases h) (auto simp: alloc_def no_failure_def)

lemma no_failure_tl [simp]: "no_failure h \<Longrightarrow> no_failure (tl h)"
  by (cases h) (auto simp: no_failure_def)

lemma no_failure_Nil [simp]: "no_failure []"
  by (simp add: no_failure_def)

lemma vex_strdup_ok:
  "no_failure h \<Longrightarrow> \<exists>h'. vex_strdup p h = (p, h') \<and> no_failure h'"
  by (cases p) (auto simp: vex_strdup_def)

lemma grow_ok:
  "no_failure h \<Longrightarrow> \<exists>c h'. grow n cap h = (True, c, h') \<and> no_failure h' \<and> n < c"
proof (induction n cap h rule: grow.induct)
  case (1 num cap h)
  show ?case
  proof (cases "cap \<le> num")
    case True
    from "1.prems" have a: "alloc h = (True, tl h)" and nf: "no_failure (tl h)"
      by simp_all
    from "1.IH" [OF True refl a [symmetric] _ nf] obtain c h' where
      "grow num (cap * 2 + (if cap * 2 = 0 then 1 else 0)) (tl h) = (True, c, h')"
      "no_failure h'" "num < c"
      by auto
    with True a show ?thesis
      by (subst grow.simps) (simp add: Let_def)
  next
    case False
    with "1.prems" show ?thesis
      by (subst grow.simps) simp
  qed
qed

lemma buffer_ok_Live [simp]: "arg_token_ptr ctx = Live_ptr \<Longrightarrow> buffer_ok ctx"
  by (simp add: buffer_ok_def)

lemma buffer_ok_upd [simp]:
  "buffer_ok (ctx\<lparr>arg_token := (arg_token ctx)[i := t]\<rparr>) = buffer_ok ctx"
  by (simp add: buffer_ok_def)

lemma vex_add_token_ok:
  assumes "no_failure h" and "buffer_ok ctx"
  shows "\<exists>c h'. vex_add_token ctx tok h =
            Proceed (ctx\<lparr>capacity_arg_token := c, arg_token_ptr := Live_ptr,
                         arg_token := arg_token ctx @ [tok]\<rparr>, h')
          \<and> no_failure h'"
proof -
  from grow_ok [OF assms(1)] obtain c h' where
    g: "grow (length (arg_token ctx)) (capacity_arg_token ctx) h = (True, c, h')"
    and nf: "no_failure h'" and gt: "length (arg_token ctx) < c"
    by blast
  from assms(2) gt have
    "\<not> (capacity_arg_token ctx \<le> length (arg_token ctx) \<and> arg_token_ptr ctx = Freed_ptr)"
    "(if c = capacity_arg_token ctx then arg_token_ptr ctx else Live_ptr) = Live_ptr"
    by (auto simp: buffer_ok_def)
  with g have "vex_add_token ctx tok h =
      Proceed (ctx\<lparr>capacity_arg_token := c, arg_token_ptr := Live_ptr,
                   arg_token := arg_token ctx @ [tok]\<rparr>, h')"
    by (simp add: vex_add_token_def Let_def)
  with nf show ?thesis by blast
qed

lemma vec_token_add_value_ok:
  "no_failure h \<Longrightarrow>
   \<exists>h'. vec_token_add_value ctx tok v h = Proceed (tok\<lparr>t_arg := t_arg tok @ [v]\<rparr>, h')
        \<and> no_failure h'"
  by (auto simp: vec_token_add_value_def)

lemma fail_with_ok:
  "no_failure h \<Longrightarrow>
   \<exists>m h'. fail_with ctx st msg h = Return_false (ctx\<lparr>status := st, status_msg := m\<rparr>) h'
          \<and> no_failure h'"
  by (auto simp: fail_with_def vex_set_status_def)

lemma value_of_type_ok:
  "no_failure h \<Longrightarrow> (ty = VEX_ARG_TYPE_INT \<longrightarrow> atoi s \<noteq> None) \<Longrightarrow>
   \<exists>h'. value_of_type ty s h = Some (text_value ty s, h') \<and> no_failure h'"
  by (auto simp: value_of_type_def text_value_def dest: vex_strdup_ok [where p = "Some s"])


subsection \<open>What a step that goes on has done\<close>

lemma long_option_lookup_cases:
  "long_option_lookup es d0 s h = Some (tok, m, h') \<Longrightarrow>
     (tok = zero_token \<and> m = None) \<or>
     (\<exists>i<length es. m = Some (d0 + i) \<and> t_short_name tok = short_name (es ! i) \<and>
        t_arg_type tok = arg_type (es ! i) \<and> t_arg tok = [] \<and>
        (t_long_name tok = None \<or> t_long_name tok = long_name (es ! i)))"
proof (induction es arbitrary: d0)
  case Nil
  then show ?case by simp
next
  case (Cons e es)
  show ?case
  proof (cases "strncmp (Some s) (long_name e) (strcspn_eq s) = Some 0")
    case True
    with Cons.prems have
      "m = Some d0 \<and> t_short_name tok = short_name e \<and> t_arg_type tok = arg_type e \<and>
       t_arg tok = [] \<and> (t_long_name tok = None \<or> t_long_name tok = long_name e)"
      by (cases "long_name e") (auto simp: vex_strdup_def split: prod.splits if_splits)
    then show ?thesis by (intro disjI2 exI [of _ 0]) simp
  next
    case False
    with Cons.prems have "long_option_lookup es (Suc d0) s h = Some (tok, m, h')"
      by (auto split: option.splits if_splits)
    from Cons.IH [OF this] show ?thesis
    proof
      assume "tok = zero_token \<and> m = None"
      then show ?thesis by simp
    next
      assume "\<exists>i<length es. m = Some (Suc d0 + i) \<and> t_short_name tok = short_name (es ! i) \<and>
        t_arg_type tok = arg_type (es ! i) \<and> t_arg tok = [] \<and>
        (t_long_name tok = None \<or> t_long_name tok = long_name (es ! i))"
      then obtain i where "i < length es" "m = Some (Suc d0 + i)"
        "t_short_name tok = short_name (es ! i)" "t_arg_type tok = arg_type (es ! i)"
        "t_arg tok = []" "t_long_name tok = None \<or> t_long_name tok = long_name (es ! i)"
        by blast
      then show ?thesis by (intro disjI2 exI [of _ "Suc i"]) simp
    qed
  qed
qed

lemma short_option_lookup_cases:
  "short_option_lookup es d0 c h = (tok, m, h') \<Longrightarrow>
     (tok = zero_token \<and> m = None \<and> h' = h \<and> (\<forall>e\<in>set es. short_name e \<noteq> c)) \<or>
     (\<exists>i<length es. m = Some (d0 + i) \<and> short_name (es ! i) = c \<and> t_short_name tok = c \<and>
        t_arg_type tok = arg_type (es ! i) \<and> t_arg tok = [] \<and>
        (t_long_name tok = None \<or> t_long_name tok = long_name (es ! i)) \<and>
        (\<forall>j<i. short_name (es ! j) \<noteq> c))"
proof (induction es arbitrary: d0)
  case Nil
  then show ?case by simp
next
  case (Cons e es)
  show ?case
  proof (cases "c = short_name e")
    case True
    with Cons.prems have
      "m = Some d0 \<and> t_short_name tok = c \<and> t_arg_type tok = arg_type e \<and>
       t_arg tok = [] \<and> (t_long_name tok = None \<or> t_long_name tok = long_name e)"
      by (cases "long_name e") (auto simp: vex_strdup_def split: prod.splits if_splits)
    with True show ?thesis by (intro disjI2 exI [of _ 0]) simp
  next
    case False
    with Cons.prems have "short_option_lookup es (Suc d0) c h = (tok, m, h')"
      by simp
    from Cons.IH [OF this] show ?thesis
    proof
      assume "tok = zero_token \<and> m = None \<and> h' = h \<and> (\<forall>e\<in>set es. short_name e \<noteq> c)"
      with False show ?thesis by auto
    next
      assume "\<exists>i<length es. m = Some (Suc d0 + i) \<and> short_name (es ! i) = c \<and>
        t_short_name tok = c \<and> t_arg_type tok = arg_type (es ! i) \<and> t_arg tok = [] \<and>
        (t_long_name tok = None \<or> t_long_name tok = long_name (es ! i)) \<and>
        (\<forall>j<i. short_name (es ! j) \<noteq> c)"
      then obtain i where i: "i < length es" "m = Some (Suc d0 + i)" "short_name (es ! i) = c"
        "t_short_name tok = c" "t_arg_type tok = arg_type (es ! i)"
        "t_arg tok = []" "t_long_name tok = None \<or> t_long_name tok = long_name (es ! i)"
        "\<forall>j<i. short_name (es ! j) \<noteq> c"
        by blast
      have "\<forall>j<Suc i. short_name ((e # es) ! j) \<noteq> c"
        using i(8) False by (auto simp: less_Suc_eq_0_disj)
      with i show ?thesis by (intro disjI2 exI [of _ "Suc i"]) simp
    qed
  qed
qed

lemma long_option_value_Proceed:
  "long_option_value ctx tok arg h = Proceed (tok', h') \<Longrightarrow>
     tok' = tok \<or> (\<exists>v. tok' = tok\<lparr>t_arg := t_arg tok @ [v]\<rparr>)"
  by (auto simp: long_option_value_def split: if_splits option.splits
           dest!: vec_token_add_value_Proceed)

lemma long_option_Proceed:
  assumes "long_option ctx arg h = Proceed (ctx', ld, lt, h')"
  obtains tok h1 vs c where
    "long_option_lookup (arg_desc ctx) 0 (drop 2 arg) h = Some (tok, ld, h1)"
    "t_long_name tok \<noteq> None"
    "ctx' = ctx\<lparr>capacity_arg_token := c, arg_token_ptr := Live_ptr, arg_token := arg_token ctx @ [tok\<lparr>t_arg := vs\<rparr>]\<rparr>"
    "lt = Some (length (arg_token ctx))"
proof -
  from assms obtain tok m h1 where
    lk0: "long_option_lookup (arg_desc ctx) 0 (drop 2 arg) h = Some (tok, m, h1)"
    by (cases "long_option_lookup (arg_desc ctx) 0 (drop 2 arg) h")
       (auto simp: long_option_def)
  with assms have nn: "t_long_name tok \<noteq> None"
    and rest: "obind (long_option_value ctx tok arg h1) (\<lambda>(token', h2).
            obind (vex_add_token ctx token' h2) (\<lambda>(ctx', h3).
              Proceed (ctx', m, Some (length (arg_token ctx') - 1), h3)))
          = Proceed (ctx', ld, lt, h')"
    by (auto simp: long_option_def split: if_splits)
  from rest obtain tok' h2 where
    v: "long_option_value ctx tok arg h1 = Proceed (tok', h2)" and
    a: "vex_add_token ctx tok' h2 = Proceed (ctx', h')" and
    l: "lt = Some (length (arg_token ctx') - 1)" and m: "m = ld"
    by (auto simp: obind_eq_Proceed)
  from lk0 m have lk: "long_option_lookup (arg_desc ctx) 0 (drop 2 arg) h = Some (tok, ld, h1)"
    by simp
  from long_option_value_Proceed [OF v] obtain vs where t': "tok' = tok\<lparr>t_arg := vs\<rparr>"
    by (cases tok) auto
  from vex_add_token_Proceed [OF a] obtain c where
    c: "ctx' = ctx\<lparr>capacity_arg_token := c, arg_token_ptr := Live_ptr, arg_token := arg_token ctx @ [tok']\<rparr>"
    by blast
  from c l have "lt = Some (length (arg_token ctx))" by simp
  with lk nn c t' that show ?thesis by blast
qed

lemma short_options_Cons_Proceed:
  assumes "short_options ctx ld lt (c # cs) h = Proceed r"
  obtains (attach) tok m h1 t v h3 where
      "short_option_lookup (arg_desc ctx) 0 c h = (tok, m, h1)" "t_short_name tok = NUL"
      "lt = Some t" "t < length (arg_token ctx)"
      "t_short_name (arg_token ctx ! t) \<noteq> NUL"
      "t_arg_type (arg_token ctx ! t) \<noteq> VEX_ARG_TYPE_FLAG"
      "r = (ctx\<lparr>arg_token := (arg_token ctx)
                  [t := (arg_token ctx ! t)\<lparr>t_arg := t_arg (arg_token ctx ! t) @ [v]\<rparr>]\<rparr>,
            (case m of None \<Rightarrow> ld | Some d \<Rightarrow> Some d), lt, h3)"
  | (matched) tok m h1 c1 h2 where
      "short_option_lookup (arg_desc ctx) 0 c h = (tok, m, h1)" "t_short_name tok \<noteq> NUL"
      "short_options (ctx\<lparr>capacity_arg_token := c1, arg_token_ptr := Live_ptr, arg_token := arg_token ctx @ [tok]\<rparr>)
         (case m of None \<Rightarrow> ld | Some d \<Rightarrow> Some d) (Some (length (arg_token ctx))) cs h2
       = Proceed r"
proof (cases "short_option_lookup (arg_desc ctx) 0 c h")
  case (fields tok m h1)
  show ?thesis
  proof (cases "t_short_name tok = NUL")
    case True
    with assms fields obtain t where t: "lt = Some t" "t < length (arg_token ctx)"
      "t_short_name (arg_token ctx ! t) \<noteq> NUL"
      "t_arg_type (arg_token ctx ! t) \<noteq> VEX_ARG_TYPE_FLAG"
      by (auto simp: Let_def split: option.splits if_splits)
    with assms fields True obtain v h2 tk' h3 where
      "vec_token_add_value ctx (arg_token ctx ! t) v h2 = Proceed (tk', h3)"
      "r = (ctx\<lparr>arg_token := (arg_token ctx)[t := tk']\<rparr>,
            (case m of None \<Rightarrow> ld | Some d \<Rightarrow> Some d), lt, h3)"
      by (auto simp: Let_def obind_eq_Proceed split: option.splits)
    with vec_token_add_value_Proceed [OF this(1)] fields True t attach show ?thesis
      by blast
  next
    case False
    with assms fields obtain ctx1 h2 where
      a: "vex_add_token ctx tok h1 = Proceed (ctx1, h2)" and
      r: "short_options ctx1 (case m of None \<Rightarrow> ld | Some d \<Rightarrow> Some d)
            (Some (length (arg_token ctx1) - 1)) cs h2 = Proceed r"
      by (auto simp: Let_def obind_eq_Proceed)
    from vex_add_token_Proceed [OF a] obtain c1 where
      "ctx1 = ctx\<lparr>capacity_arg_token := c1, arg_token_ptr := Live_ptr, arg_token := arg_token ctx @ [tok]\<rparr>"
      by blast
    with r fields False matched show ?thesis by simp
  qed
qed

lemma free_value_Proceed:
  assumes "free_value ctx ls arg h = Proceed (ctx', ls', h')"
  obtains (grouped) t v where
      "last_token ls = Some t" "parse_options ls" "t < length (arg_token ctx)"
      "t_arg_type (arg_token ctx ! t) = infer_type VEX_ARG_TYPE_UNKNOWN arg"
      "ctx' = ctx\<lparr>arg_token := (arg_token ctx)
                  [t := (arg_token ctx ! t)\<lparr>t_arg := t_arg (arg_token ctx ! t) @ [v]\<rparr>]\<rparr>"
      "ls' = ls"
  | (fresh) v c h1 where
      "ctx' = ctx\<lparr>capacity_arg_token := c, arg_token_ptr := Live_ptr,
                   arg_token := arg_token ctx @
                     [\<lparr>t_long_name = None, t_short_name = NUL, t_arg = [v],
                       t_arg_type = infer_type VEX_ARG_TYPE_UNKNOWN arg\<rparr>]\<rparr>"
      "ls' = ls\<lparr>last_token := None, last_desc := None\<rparr>"
      "value_of_type (infer_type VEX_ARG_TYPE_UNKNOWN arg) arg h = Some (v, h1)"
proof -
  from assms obtain grp where g: "group_with_last_token ctx ls = Some grp"
    by (auto simp: free_value_def Let_def split: option.splits)
  show ?thesis
  proof (cases "parse_options ls \<and> grp")
    case True
    with assms g obtain t where t: "last_token ls = Some t"
      by (auto simp: free_value_def Let_def split: option.splits)
    with g True have lt: "t < length (arg_token ctx)"
      by (auto simp: group_with_last_token_def split: option.splits if_splits)
    from assms g True t obtain v h1 tk' where
      ty: "t_arg_type (arg_token ctx ! t) = infer_type VEX_ARG_TYPE_UNKNOWN arg" and
      "vec_token_add_value ctx (arg_token ctx ! t) v h1 = Proceed (tk', h')"
      "ctx' = ctx\<lparr>arg_token := (arg_token ctx)[t := tk']\<rparr>" "ls' = ls"
      by (auto simp: free_value_def Let_def obind_eq_Proceed split: option.splits if_splits)
    with vec_token_add_value_Proceed [OF this(2)] t True lt grouped show ?thesis
      by blast
  next
    case False
    with assms g obtain v h1 tk h2 where
      vo: "value_of_type (infer_type VEX_ARG_TYPE_UNKNOWN arg) arg h = Some (v, h1)" and
      v: "vec_token_add_value ctx (zero_token\<lparr>t_arg_type := infer_type VEX_ARG_TYPE_UNKNOWN arg\<rparr>)
            v h1 = Proceed (tk, h2)" and
      a: "vex_add_token ctx tk h2 = Proceed (ctx', h')" and
      l: "ls' = ls\<lparr>last_token := None, last_desc := None\<rparr>"
      by (auto simp: free_value_def Let_def obind_eq_Proceed split: option.splits if_splits)
    from vec_token_add_value_Proceed [OF v] vex_add_token_Proceed [OF a] l vo fresh
    show ?thesis by auto
  qed
qed

subsection \<open>The locals index stored elements\<close>

lemma locals_ok_long_option:
  assumes "long_option ctx arg h = Proceed (ctx', ld, lt, h')"
  shows "locals_ok ctx' (ls\<lparr>last_desc := ld, last_token := lt\<rparr>)"
  using assms
proof (cases rule: long_option_Proceed)
  case (1 tok h1 vs c)
  from long_option_lookup_cases [OF 1(1)] 1(2) obtain i where
    "i < length (arg_desc ctx)" "ld = Some i"
    by auto
  with 1 show ?thesis by (simp add: locals_ok_def)
qed

lemma locals_ok_short_options:
  "short_options ctx ld lt s h = Proceed (ctx', ld', lt', h') \<Longrightarrow>
   locals_ok ctx \<lparr>last_desc = ld, last_token = lt, parse_options = po\<rparr> \<Longrightarrow>
   locals_ok ctx' \<lparr>last_desc = ld', last_token = lt', parse_options = po\<rparr>"
proof (induction s arbitrary: ctx ld lt h)
  case Nil
  then show ?case by simp
next
  case (Cons c cs)
  from Cons.prems(1) show ?case
  proof (cases rule: short_options_Cons_Proceed)
    case (attach tok m h1 t v h3)
    from short_option_lookup_cases [OF attach(1)]
    have "m = None \<or> (\<exists>i<length (arg_desc ctx). m = Some i)" by auto
    with attach Cons.prems(2) show ?thesis
      by (auto simp: locals_ok_def split: option.splits)
  next
    case (matched tok m h1 c1 h2)
    from short_option_lookup_cases [OF matched(1)] matched(2)
    obtain i where i: "i < length (arg_desc ctx)" "m = Some i" by auto
    have "locals_ok (ctx\<lparr>capacity_arg_token := c1, arg_token_ptr := Live_ptr, arg_token := arg_token ctx @ [tok]\<rparr>)
            \<lparr>last_desc = (case m of None \<Rightarrow> ld | Some d \<Rightarrow> Some d),
             last_token = Some (length (arg_token ctx)), parse_options = po\<rparr>"
      using i by (simp add: locals_ok_def)
    from Cons.IH [OF matched(3) this] show ?thesis .
  qed
qed

lemma locals_ok_free_value:
  assumes "free_value ctx ls arg h = Proceed (ctx', ls', h')" and "locals_ok ctx ls"
  shows "locals_ok ctx' ls'"
  using assms(1)
proof (cases rule: free_value_Proceed)
  case (grouped t v)
  with assms(2) show ?thesis by (auto simp: locals_ok_def split: option.splits)
next
  case (fresh v c)
  then show ?thesis by (simp add: locals_ok_def)
qed

lemma parse_locals_eq:
  "ls\<lparr>last_desc := ld, last_token := lt\<rparr> =
     \<lparr>last_desc = ld, last_token = lt, parse_options = parse_options ls\<rparr>"
  by (cases ls) simp

lemma locals_ok_parse_arg:
  assumes "parse_arg ctx ls a h = Proceed (ctx', ls', h')" and "locals_ok ctx ls"
  shows "locals_ok ctx' ls'"
proof (cases a)
  case None
  with assms show ?thesis by (simp add: parse_arg_def)
next
  case (Some arg)
  show ?thesis
  proof (cases "strcmp (Some arg) (Some ''--'') = Some 0")
    case True
    with assms Some show ?thesis
      by (auto simp: parse_arg_def locals_ok_def split: option.splits)
  next
    case sep: False
    show ?thesis
    proof (cases "parse_options ls \<and> char_at arg 0 = CHR ''-''")
      case False
      with assms Some sep have "free_value ctx ls arg h = Proceed (ctx', ls', h')"
        by (auto simp: parse_arg_def)
      from locals_ok_free_value [OF this assms(2)] show ?thesis .
    next
      case opt: True
      show ?thesis
      proof (cases "char_at arg 1 = CHR ''-''")
        case True
        with assms Some sep opt obtain ld lt where
          "long_option ctx arg h = Proceed (ctx', ld, lt, h')"
          "ls' = ls\<lparr>last_desc := ld, last_token := lt\<rparr>"
          by (auto simp: parse_arg_def obind_eq_Proceed)
        with locals_ok_long_option [OF this(1), of ls] show ?thesis by simp
      next
        case False
        with assms Some sep opt obtain ld lt where
          so: "short_options ctx None None (drop 1 arg) h = Proceed (ctx', ld, lt, h')" and
          ls': "ls' = ls\<lparr>last_desc := ld, last_token := lt\<rparr>"
          by (auto simp: parse_arg_def obind_eq_Proceed)
        have "locals_ok ctx \<lparr>last_desc = None, last_token = None, parse_options = parse_options ls\<rparr>"
          by (simp add: locals_ok_def)
        from locals_ok_short_options [OF so this] ls' show ?thesis
          by (simp add: parse_locals_eq)
      qed
    qed
  qed
qed

lemma locals_ok_parse_args:
  "parse_args ctx ls as h = Proceed (ctx', ls', h') \<Longrightarrow> locals_ok ctx ls \<Longrightarrow>
   locals_ok ctx' ls'"
proof (induction as arbitrary: ctx ls h)
  case Nil
  then show ?case by simp
next
  case (Cons a as)
  from Cons.prems(1) obtain ctx1 ls1 h1 where
    step: "parse_arg ctx ls a h = Proceed (ctx1, ls1, h1)" and
    rest: "parse_args ctx1 ls1 as h1 = Proceed (ctx', ls', h')"
    by (auto simp: obind_eq_Proceed)
  from Cons.IH [OF rest locals_ok_parse_arg [OF step Cons.prems(2)]] show ?case .
qed

lemma vex_parse_loop_Proceed:
  assumes "vex_parse_loop ctx args h = Proceed r"
  obtains ctx0 where "clear_tokens ctx = Some ctx0"
    "parse_args ctx0 \<lparr>last_desc = None, last_token = None, parse_options = True\<rparr> args h
       = Proceed r"
    "arg_token ctx0 = []"
  using assms
  by (auto simp: vex_parse_loop_def clear_tokens_def split: option.splits pointer.splits)

lemma locals_ok_vex_parse_loop:
  assumes "vex_parse_loop ctx args h = Proceed (ctx', ls', h')"
  shows "locals_ok ctx' ls'"
  using assms
proof (cases rule: vex_parse_loop_Proceed)
  case (1 ctx0)
  from locals_ok_parse_args [OF 1(2)] show ?thesis by (simp add: locals_ok_def)
qed

lemma clear_tokens_fresh:
  "arg_token_ptr ctx = Null_ptr \<Longrightarrow>
   clear_tokens ctx = Some (ctx\<lparr>arg_token := [], capacity_arg_token := 0\<rparr>)"
  by (simp add: clear_tokens_def)

lemma vex_parse_loop_fresh:
  "arg_token_ptr ctx = Null_ptr \<Longrightarrow>
   vex_parse_loop ctx args h =
     parse_args (ctx\<lparr>arg_token := [], capacity_arg_token := 0\<rparr>)
       \<lparr>last_desc = None, last_token = None, parse_options = True\<rparr> args h"
  by (simp add: vex_parse_loop_def clear_tokens_fresh)

lemma parse_args_append:
  "parse_args ctx ls (xs @ ys) h =
     obind (parse_args ctx ls xs h) (\<lambda>(ctx', ls', h'). parse_args ctx' ls' ys h')"
proof (induction xs arbitrary: ctx ls h)
  case Nil
  then show ?case by simp
next
  case (Cons a xs)
  show ?case
    by (cases "parse_arg ctx ls a h") (auto simp: Cons.IH)
qed


lemma vex_parse_loop_append:
  "vex_parse_loop ctx (xs @ ys) h =
     obind (vex_parse_loop ctx xs h) (\<lambda>(ctx', ls', h'). parse_args ctx' ls' ys h')"
  by (simp add: vex_parse_loop_def parse_args_append split: option.splits)

subsection \<open>The token buffer stays usable\<close>





subsection \<open>After the literal \<^verbatim>\<open>--\<close>\<close>

lemma strcmp_Some [simp]: "strcmp (Some a) (Some b) = Some 0 \<longleftrightarrow> a = b"
  by (simp add: strcmp_def)








subsection \<open>A free-standing value of the wrong type\<close>

lemma vex_add_arg_count:
  "vex_add_arg default_ctx
     \<lparr>description = Some ''Number of runs'', long_name = Some ''count'',
      short_name = CHR ''c'', arg_type = VEX_ARG_TYPE_INT, max_count = 1\<rparr> []
   = Proceed (count_ctx, [])"
  by code_simp

lemma vex_add_arg_ab:
  "vex_add_arg default_ctx
     \<lparr>description = Some ''Show all'', long_name = Some ''all'',
      short_name = CHR ''a'', arg_type = VEX_ARG_TYPE_FLAG, max_count = 0\<rparr> []
   = Proceed
       (default_ctx\<lparr>capacity_arg_desc := 4,
          arg_desc := arg_desc default_ctx @
            [\<lparr>description = Some ''Show all'', long_name = Some ''all'',
              short_name = CHR ''a'', arg_type = VEX_ARG_TYPE_FLAG, max_count = 0\<rparr>]\<rparr>, [])
   \<and> vex_add_arg
       (default_ctx\<lparr>capacity_arg_desc := 4,
          arg_desc := arg_desc default_ctx @
            [\<lparr>description = Some ''Show all'', long_name = Some ''all'',
              short_name = CHR ''a'', arg_type = VEX_ARG_TYPE_FLAG, max_count = 0\<rparr>]\<rparr>)
       \<lparr>description = Some ''Be brief'', long_name = Some ''brief'',
        short_name = CHR ''b'', arg_type = VEX_ARG_TYPE_FLAG, max_count = 0\<rparr> []
     = Proceed (ab_ctx, [])"
  by code_simp

text \<open>
  Claim C5. Let the loop of \<^verbatim>\<open>vex_parse\<close> have processed the arguments \<open>pre\<close> and stand,
  with option parsing active, at a last token \<open>t\<close> whose descriptor \<open>d\<close> still has
  capacity (\<^verbatim>\<open>max_count\<close> negative, or fewer values than \<^verbatim>\<open>max_count\<close>). If the next
  argument is a free-standing value whose inferred type differs from the type of the
  last token, \<^verbatim>\<open>vex_parse\<close> returns false at once with \<^verbatim>\<open>VEX_STATUS_BAD_VALUE\<close>; the
  token list is as it was before the value (no new free-standing token), and the
  arguments after it are not looked at. (The buffer of the status message is allocated.)
\<close>

theorem free_value_type_mismatch_fails:
  assumes loop: "vex_parse_loop ctx pre h = Proceed (ctx1, ls, h1)"
    and active: "parse_options ls"
    and last: "last_token ls = Some t" "last_desc ls = Some d"
    and room: "max_count (arg_desc ctx1 ! d) < 0 \<or>
               int (length (t_arg (arg_token ctx1 ! t))) < max_count (arg_desc ctx1 ! d)"
    and free: "char_at arg 0 \<noteq> CHR ''-''"
    and mismatch: "infer_type VEX_ARG_TYPE_UNKNOWN arg \<noteq> t_arg_type (arg_token ctx1 ! t)"
    and mem: "fst (alloc h1)"
  shows "vex_parse ctx (prog # pre @ Some arg # rest) h =
           Return_false
             (ctx1\<lparr>status := VEX_STATUS_BAD_VALUE, status_msg := Some ''Unexpected value''\<rparr>)
             (snd (alloc h1))"
proof -
  from locals_ok_vex_parse_loop [OF loop] last
  have idx: "t < length (arg_token ctx1)" "d < length (arg_desc ctx1)"
    by (simp_all add: locals_ok_def)
  with last room have grp: "group_with_last_token ctx1 ls = Some True"
    by (simp add: group_with_last_token_def)
  from free have nsep: "arg \<noteq> ''--''" by (auto simp: char_at_def)
  from grp active last mismatch
  have "free_value ctx1 ls arg h1 =
          fail_with ctx1 VEX_STATUS_BAD_VALUE (Some ''Unexpected value'') h1"
    by (simp add: free_value_def Let_def)
  also have "\<dots> = Return_false
             (ctx1\<lparr>status := VEX_STATUS_BAD_VALUE, status_msg := Some ''Unexpected value''\<rparr>)
             (snd (alloc h1))"
    by (simp add: fail_with_alloc_ok [OF mem])
  finally have "parse_arg ctx1 ls (Some arg) h1 = Return_false
             (ctx1\<lparr>status := VEX_STATUS_BAD_VALUE, status_msg := Some ''Unexpected value''\<rparr>)
             (snd (alloc h1))"
    using free nsep by (simp add: parse_arg_def)
  with loop show ?thesis
    by (simp add: vex_parse_def vex_parse_loop_append)
qed


theorem free_value_type_mismatch_fails_witness:
  "vex_parse count_ctx (Some ''prog'' # [Some ''--count''] @ Some ''abc'' # [Some ''7'']) []
   = Return_false
       ((count_ctx\<lparr>capacity_arg_token := 1, arg_token_ptr := Live_ptr,
           arg_token := [\<lparr>t_long_name = Some ''count'', t_short_name = CHR ''c'',
                          t_arg = [], t_arg_type = VEX_ARG_TYPE_INT\<rparr>]\<rparr>)
          \<lparr>status := VEX_STATUS_BAD_VALUE, status_msg := Some ''Unexpected value''\<rparr>) []"
proof -
  let ?c1 = "count_ctx\<lparr>capacity_arg_token := 1, arg_token_ptr := Live_ptr,
           arg_token := [\<lparr>t_long_name = Some ''count'', t_short_name = CHR ''c'',
                          t_arg = [], t_arg_type = VEX_ARG_TYPE_INT\<rparr>]\<rparr>"
  let ?ls = "\<lparr>last_desc = Some 2, last_token = Some 0, parse_options = True\<rparr>"
  have loop: "vex_parse_loop count_ctx [Some ''--count''] [] = Proceed (?c1, ?ls, [])"
    by code_simp
  have active: "parse_options ?ls" by simp
  have last: "last_token ?ls = Some 0" "last_desc ?ls = Some 2" by simp_all
  have room: "max_count (arg_desc ?c1 ! 2) < 0 \<or>
              int (length (t_arg (arg_token ?c1 ! 0))) < max_count (arg_desc ?c1 ! 2)"
    by (simp add: count_ctx_def default_ctx_def)
  have free: "char_at ''abc'' 0 \<noteq> CHR ''-''" by (simp add: char_at_def)
  have mismatch: "infer_type VEX_ARG_TYPE_UNKNOWN ''abc'' \<noteq> t_arg_type (arg_token ?c1 ! 0)"
    by (simp add: isdigit_def)
  have mem: "fst (alloc [])" by (simp add: alloc_def)
  from free_value_type_mismatch_fails
         [OF loop active last room free mismatch mem, of "Some ''prog''" "[Some ''7'']"]
  show ?thesis by (simp add: alloc_def)
qed

subsection \<open>Short option clusters\<close>

lemma short_option_lookup_heap:
  "no_failure h \<Longrightarrow> no_failure (snd (snd (short_option_lookup es d0 c h)))"
proof (induction es arbitrary: d0)
  case Nil
  then show ?case by simp
next
  case (Cons e es)
  then show ?case
    using vex_strdup_ok [of h "long_name e"] by auto
qed

lemma short_option_lookup_found:
  assumes "\<exists>e\<in>set es. short_name e = c" and "no_failure h"
  shows "\<exists>tok d h'. short_option_lookup es d0 c h = (tok, Some d, h') \<and> t_short_name tok = c \<and>
           t_arg tok = [] \<and> (\<exists>e\<in>set es. short_name e = c \<and> t_arg_type tok = arg_type e) \<and>
           no_failure h'"
proof (cases "short_option_lookup es d0 c h")
  case (fields tok m h')
  from short_option_lookup_heap [OF assms(2), of es d0 c] fields have "no_failure h'" by simp
  from short_option_lookup_cases [OF fields] assms(1) obtain i where
    i: "i < length es" "m = Some (d0 + i)" "short_name (es ! i) = c" "t_short_name tok = c"
       "t_arg_type tok = arg_type (es ! i)" "t_arg tok = []"
    by auto
  from i(1,3,5) have "\<exists>e\<in>set es. short_name e = c \<and> t_arg_type tok = arg_type e"
    by (intro bexI [of _ "es ! i"]) simp_all
  with i fields \<open>no_failure h'\<close> show ?thesis by simp
qed

lemma short_option_lookup_none:
  "\<forall>e\<in>set es. short_name e \<noteq> c \<Longrightarrow> short_option_lookup es d0 c h = (zero_token, None, h)"
  by (induction es arbitrary: d0) auto

text \<open>
  Claim C6. In a context where \<^verbatim>\<open>-a\<close> and \<^verbatim>\<open>-b\<close> are registered as Flag options and no
  descriptor has the short name \<^verbatim>\<open>c\<close>, parsing the single cluster \<^verbatim>\<open>-abc\<close> returns
  false with \<^verbatim>\<open>VEX_STATUS_UNKNOWN_ARG\<close> for the character \<^verbatim>\<open>c\<close>: the last token, for
  \<^verbatim>\<open>-b\<close>, is a Flag, so \<^verbatim>\<open>c\<close> cannot be the start of a value for it. (The token
  buffer of the context has not been allocated yet, that is, no earlier parse has
  stored a token, and no allocation fails.)
\<close>

theorem cluster_abc_unknown_argument:
  assumes a: "\<exists>e\<in>set (arg_desc ctx). short_name e = CHR ''a''"
             "\<forall>e\<in>set (arg_desc ctx). short_name e = CHR ''a'' \<longrightarrow> arg_type e = VEX_ARG_TYPE_FLAG"
    and b: "\<exists>e\<in>set (arg_desc ctx). short_name e = CHR ''b''"
           "\<forall>e\<in>set (arg_desc ctx). short_name e = CHR ''b'' \<longrightarrow> arg_type e = VEX_ARG_TYPE_FLAG"
    and c: "\<forall>e\<in>set (arg_desc ctx). short_name e \<noteq> CHR ''c''"
    and fresh: "arg_token_ptr ctx = Null_ptr"
    and nf: "no_failure h"
  shows "\<exists>ctx' h'. vex_parse ctx [prog, Some ''-abc''] h = Return_false ctx' h' \<and>
           status ctx' = VEX_STATUS_UNKNOWN_ARG \<and> status_msg ctx' = Some ''Unknown option: -c''"
proof -
  let ?c0 = "ctx\<lparr>arg_token := [], capacity_arg_token := 0\<rparr>"
  from short_option_lookup_found [OF _ nf, of "arg_desc ?c0" "CHR ''a''" 0] a(1)
  obtain ta da h1 where
    la: "short_option_lookup (arg_desc ?c0) 0 (CHR ''a'') h = (ta, Some da, h1)"
    and ta: "t_short_name ta = CHR ''a''" and nf1: "no_failure h1"
    by auto
  from fresh have bok0: "buffer_ok ?c0" by (simp add: buffer_ok_def)
  from vex_add_token_ok [OF nf1 bok0, of ta] obtain c1 h2 where
    adda: "vex_add_token ?c0 ta h1 =
             Proceed (?c0\<lparr>capacity_arg_token := c1, arg_token_ptr := Live_ptr,
                          arg_token := [ta]\<rparr>, h2)"
    and nf2: "no_failure h2"
    by auto
  let ?c1 = "?c0\<lparr>capacity_arg_token := c1, arg_token_ptr := Live_ptr, arg_token := [ta]\<rparr>"
  have bok1: "buffer_ok ?c1" by simp
  from short_option_lookup_found [OF _ nf2, of "arg_desc ?c1" "CHR ''b''" 0] b
  obtain tb db h3 where
    lb: "short_option_lookup (arg_desc ?c1) 0 (CHR ''b'') h2 = (tb, Some db, h3)"
    and tb: "t_short_name tb = CHR ''b''" "t_arg_type tb = VEX_ARG_TYPE_FLAG"
    and nf3: "no_failure h3"
    by auto
  from vex_add_token_ok [OF nf3 bok1, of tb] obtain c2 h4 where
    addb: "vex_add_token ?c1 tb h3 =
             Proceed (?c1\<lparr>capacity_arg_token := c2, arg_token_ptr := Live_ptr,
                          arg_token := [ta, tb]\<rparr>, h4)"
    and nf4: "no_failure h4"
    by auto
  let ?c2 = "?c1\<lparr>capacity_arg_token := c2, arg_token_ptr := Live_ptr,
                 arg_token := [ta, tb]\<rparr>"
  from c have lc: "short_option_lookup (arg_desc ?c2) 0 (CHR ''c'') h4 = (zero_token, None, h4)"
    by (intro short_option_lookup_none) simp
  have stepc: "short_options ?c2 (Some db) (Some 1) ''c'' h4 =
     fail_with ?c2 VEX_STATUS_UNKNOWN_ARG (Some ''Unknown option: -c'') h4"
    using lc tb by simp
  have stepb: "short_options ?c1 (Some da) (Some 0) ''bc'' h2 =
     fail_with ?c2 VEX_STATUS_UNKNOWN_ARG (Some ''Unknown option: -c'') h4"
    using lb tb addb stepc by simp
  have stepa: "short_options ?c0 None None ''abc'' h =
     fail_with ?c2 VEX_STATUS_UNKNOWN_ARG (Some ''Unknown option: -c'') h4"
    using la ta adda stepb by simp
  from nf4 have "fst (alloc h4)" by simp
  from fail_with_alloc_ok [OF this, of VEX_STATUS_UNKNOWN_ARG ?c2 "''Unknown option: -c''"]
  have "short_options ?c0 None None ''abc'' h =
     Return_false (?c2\<lparr>status := VEX_STATUS_UNKNOWN_ARG,
                        status_msg := Some ''Unknown option: -c''\<rparr>) (snd (alloc h4))"
    unfolding stepa by simp
  then have "vex_parse ctx [prog, Some ''-abc''] h =
     Return_false (?c2\<lparr>status := VEX_STATUS_UNKNOWN_ARG,
                        status_msg := Some ''Unknown option: -c''\<rparr>) (snd (alloc h4))"
    by (simp add: vex_parse_def vex_parse_loop_fresh [OF fresh] parse_arg_def char_at_def)
  then show ?thesis by simp
qed


theorem cluster_abc_unknown_argument_witness:
  "\<exists>ctx' h'. vex_parse ab_ctx [Some ''prog'', Some ''-abc''] [] = Return_false ctx' h' \<and>
     status ctx' = VEX_STATUS_UNKNOWN_ARG \<and> status_msg ctx' = Some ''Unknown option: -c''"
proof -
  have a: "\<exists>e\<in>set (arg_desc ab_ctx). short_name e = CHR ''a''"
    "\<forall>e\<in>set (arg_desc ab_ctx). short_name e = CHR ''a'' \<longrightarrow> arg_type e = VEX_ARG_TYPE_FLAG"
    by (simp_all add: ab_ctx_def default_ctx_def)
  have b: "\<exists>e\<in>set (arg_desc ab_ctx). short_name e = CHR ''b''"
    "\<forall>e\<in>set (arg_desc ab_ctx). short_name e = CHR ''b'' \<longrightarrow> arg_type e = VEX_ARG_TYPE_FLAG"
    by (simp_all add: ab_ctx_def default_ctx_def)
  have c: "\<forall>e\<in>set (arg_desc ab_ctx). short_name e \<noteq> CHR ''c''"
    by (simp add: ab_ctx_def default_ctx_def)
  have fresh: "arg_token_ptr ab_ctx = Null_ptr" by (simp add: ab_ctx_def default_ctx_def)
  have nf: "no_failure []" by simp
  from cluster_abc_unknown_argument [OF a b c fresh nf] show ?thesis .
qed

subsection \<open>Long options\<close>

lemma strncmp_long_match:
  assumes "long_name e \<noteq> None"
  shows "strncmp (Some s) (long_name e) (strcspn_eq s) =
           Some 0 \<longleftrightarrow> long_match (takeWhile (\<lambda>c. c \<noteq> CHR ''='') s) e"
    and "strncmp (Some s) (long_name e) (strcspn_eq s) \<noteq> None"
proof -
  let ?nm = "takeWhile (\<lambda>c. c \<noteq> CHR ''='') s"
  from assms obtain ln where ln: "long_name e = Some ln" by auto
  have tk: "take (length ?nm) s = ?nm"
    by (metis append_eq_conv_conj takeWhile_dropWhile_id)
  have "(take (length ?nm) ln = ?nm) = prefix ?nm ln"
    by (metis append_eq_conv_conj prefix_def take_is_prefix)
  with ln tk show "strncmp (Some s) (long_name e) (strcspn_eq s) =
           Some 0 \<longleftrightarrow> long_match (takeWhile (\<lambda>c. c \<noteq> CHR ''='') s) e"
    by (auto simp: strncmp_def strcspn_eq_def long_match_def)
  from ln show "strncmp (Some s) (long_name e) (strcspn_eq s) \<noteq> None"
    by (simp add: strncmp_def)
qed

lemma long_option_lookup_find:
  assumes "\<forall>e\<in>set es. long_name e \<noteq> None" and "no_failure h"
  shows "case find (long_match (takeWhile (\<lambda>c. c \<noteq> CHR ''='') s)) es of
           None \<Rightarrow> long_option_lookup es d0 s h = Some (zero_token, None, h)
         | Some e \<Rightarrow> \<exists>d h'. long_option_lookup es d0 s h = Some (option_token e, Some d, h') \<and>
                       no_failure h'"
  using assms(1)
proof (induction es arbitrary: d0)
  case Nil
  then show ?case by simp
next
  case (Cons e es)
  let ?nm = "takeWhile (\<lambda>c. c \<noteq> CHR ''='') s"
  from Cons.prems have ne: "long_name e \<noteq> None" and rest: "\<forall>e\<in>set es. long_name e \<noteq> None"
    by simp_all
  from strncmp_long_match(2) [OF ne, of s] obtain r where
    r: "strncmp (Some s) (long_name e) (strcspn_eq s) = Some r" by auto
  show ?case
  proof (cases "long_match ?nm e")
    case True
    with strncmp_long_match(1) [OF ne, of s] r have "r = 0" by simp
    moreover from vex_strdup_ok [OF assms(2), of "long_name e"] obtain h' where
      "vex_strdup (long_name e) h = (long_name e, h')" "no_failure h'" by blast
    ultimately show ?thesis using True r
      by (simp add: option_token_def)
  next
    case False
    with strncmp_long_match(1) [OF ne, of s] r have "r \<noteq> 0" by simp
    with False r Cons.IH [OF rest, of "Suc d0"] show ?thesis
      by (auto split: option.splits)
  qed
qed

lemma long_match_proper_extension:
  "long_name e = Some ln \<Longrightarrow> strict_prefix ln nm \<Longrightarrow> \<not> long_match nm e"
  by (auto simp: long_match_def strict_prefix_def)

lemma strchr_absent: "c \<notin> set s \<Longrightarrow> strchr s c = None"
proof -
  assume "c \<notin> set s"
  then have "dropWhile (\<lambda>x. x \<noteq> c) s = []"
    by (auto simp: dropWhile_eq_Nil_conv)
  then show ?thesis unfolding strchr_def by (simp only: list.case)
qed

lemma find_Some_set: "find P xs = Some x \<Longrightarrow> x \<in> set xs \<and> P x"
  by (auto simp: find_Some_iff)

lemma takeWhile_name:
  "CHR ''='' \<notin> set nm \<Longrightarrow> sfx = [] \<or> hd sfx = CHR ''='' \<Longrightarrow>
   takeWhile (\<lambda>c. c \<noteq> CHR ''='') (nm @ sfx) = nm"
  by (induction nm) (cases sfx; auto)+

lemma dropWhile_name:
  "CHR ''='' \<notin> set nm \<Longrightarrow> sfx = [] \<or> hd sfx = CHR ''='' \<Longrightarrow>
   dropWhile (\<lambda>c. c \<noteq> CHR ''='') (nm @ sfx) = sfx"
  by (induction nm) (cases sfx; auto)+

lemma strchr_name:
  assumes "CHR ''='' \<notin> set nm" and "sfx = [] \<or> hd sfx = CHR ''=''"
  shows "strchr (''--'' @ nm @ sfx) (CHR ''='') = (if sfx = [] then None else Some sfx)"
proof -
  have "dropWhile (\<lambda>c. c \<noteq> CHR ''='') (''--'' @ nm @ sfx) = sfx"
    using dropWhile_name [OF assms] by simp
  then have "strchr (''--'' @ nm @ sfx) (CHR ''='') =
      (case sfx of [] \<Rightarrow> None | r # rs \<Rightarrow> Some (r # rs))"
    unfolding strchr_def by (simp only:)
  then show ?thesis by (cases sfx) simp_all
qed

text \<open>
  The parse of a single long option \<^verbatim>\<open>--nm\<close> or \<^verbatim>\<open>--nm=value\<close> on a context whose token
  buffer is not allocated yet.
\<close>

lemma parse_single_long_option:
  assumes fresh: "arg_token_ptr ctx = Null_ptr"
    and names: "\<forall>e\<in>set (arg_desc ctx). long_name e \<noteq> None"
    and nm: "CHR ''='' \<notin> set nm"
    and sfx: "sfx = [] \<or> hd sfx = CHR ''=''"
    and nsep: "nm @ sfx \<noteq> []"
    and nf: "no_failure h"
  shows "case find (long_match nm) (arg_desc ctx) of
           None \<Rightarrow>
             \<exists>m h'. vex_parse ctx [prog, Some (''--'' @ nm @ sfx)] h =
               Return_false (ctx\<lparr>arg_token := [], capacity_arg_token := 0,
                                 status := VEX_STATUS_UNKNOWN_ARG, status_msg := m\<rparr>) h'
         | Some e \<Rightarrow>
             (arg_type e = VEX_ARG_TYPE_INT \<and> sfx \<noteq> [] \<longrightarrow> atoi (tl sfx) \<noteq> None) \<longrightarrow>
             (\<exists>c h'. vex_parse ctx [prog, Some (''--'' @ nm @ sfx)] h =
               Proceed (ctx\<lparr>arg_token := [long_option_token e sfx], capacity_arg_token := c,
                            arg_token_ptr := Live_ptr\<rparr>, h'))"
proof -
  let ?arg = "''--'' @ nm @ sfx"
  let ?c0 = "ctx\<lparr>arg_token := [], capacity_arg_token := 0\<rparr>"
  let ?ls0 = "\<lparr>last_desc = None, last_token = None, parse_options = True\<rparr>"
  have tw: "takeWhile (\<lambda>c. c \<noteq> CHR ''='') (nm @ sfx) = nm"
    by (rule takeWhile_name [OF nm sfx])
  from nsep have step: "parse_arg ?c0 ?ls0 (Some ?arg) h =
      obind (long_option ?c0 ?arg h) (\<lambda>(ctx', ld, lt, h').
                 Proceed (ctx', ?ls0\<lparr>last_desc := ld, last_token := lt\<rparr>, h'))"
    by (auto simp: parse_arg_def char_at_def)
  have d2: "drop 2 ?arg = nm @ sfx" by simp
  from fresh have bok: "buffer_ok ?c0" by (simp add: buffer_ok_def)
  show ?thesis
  proof (cases "find (long_match nm) (arg_desc ctx)")
    case None
    with long_option_lookup_find [OF names nf, where s = "nm @ sfx" and ?d0.0 = 0] tw
    have "long_option_lookup (arg_desc ?c0) 0 (drop 2 ?arg) h = Some (zero_token, None, h)"
      unfolding d2 by simp
    then have "long_option ?c0 ?arg h =
        fail_with ?c0 VEX_STATUS_UNKNOWN_ARG (Some (''Unknown option: '' @ ?arg)) h"
      by (simp add: long_option_def)
    with fail_with_ok [OF nf, of ?c0 VEX_STATUS_UNKNOWN_ARG "Some (''Unknown option: '' @ ?arg)"]
    obtain m h' where "long_option ?c0 ?arg h =
        Return_false (?c0\<lparr>status := VEX_STATUS_UNKNOWN_ARG, status_msg := m\<rparr>) h'"
      by auto
    with step have "vex_parse ctx [prog, Some ?arg] h =
        Return_false (ctx\<lparr>arg_token := [], capacity_arg_token := 0,
                                 status := VEX_STATUS_UNKNOWN_ARG, status_msg := m\<rparr>) h'"
      by (simp add: vex_parse_def vex_parse_loop_fresh [OF fresh])
    with None show ?thesis by auto
  next
    case (Some e)
    have "\<exists>c h'. vex_parse ctx [prog, Some ?arg] h =
               Proceed (ctx\<lparr>arg_token := [long_option_token e sfx], capacity_arg_token := c,
                            arg_token_ptr := Live_ptr\<rparr>, h')"
      if conv: "arg_type e = VEX_ARG_TYPE_INT \<and> sfx \<noteq> [] \<longrightarrow> atoi (tl sfx) \<noteq> None"
    proof -
      from Some long_option_lookup_find [OF names nf, where s = "nm @ sfx" and ?d0.0 = 0] tw
      obtain d h1 where
        lk: "long_option_lookup (arg_desc ?c0) 0 (drop 2 ?arg) h
               = Some (option_token e, Some d, h1)"
        and nf1: "no_failure h1"
        unfolding d2 by auto
      from find_Some_set [OF Some] names have nn: "t_long_name (option_token e) \<noteq> None"
        by (simp add: option_token_def)
      have "\<exists>h2. long_option_value ?c0 (option_token e) ?arg h1 =
                   Proceed (long_option_token e sfx, h2) \<and> no_failure h2"
      proof (cases "arg_type e \<noteq> VEX_ARG_TYPE_FLAG \<and> sfx \<noteq> []")
        case False
        with nf1 strchr_name [OF nm sfx] show ?thesis
          by (auto simp: long_option_value_def long_option_token_def option_token_def)
      next
        case True
        with conv have "arg_type e = VEX_ARG_TYPE_INT \<longrightarrow> atoi (tl sfx) \<noteq> None" by simp
        from value_of_type_ok [OF nf1 this] obtain h1' where
          v: "value_of_type (arg_type e) (tl sfx) h1
                = Some (text_value (arg_type e) (tl sfx), h1')"
          and nf1': "no_failure h1'" by blast
        from vec_token_add_value_ok [OF nf1', of ?c0 "option_token e"
               "text_value (arg_type e) (tl sfx)"]
        obtain h2 where
          "vec_token_add_value ?c0 (option_token e) (text_value (arg_type e) (tl sfx)) h1'
             = Proceed ((option_token e)\<lparr>t_arg := t_arg (option_token e) @
                          [text_value (arg_type e) (tl sfx)]\<rparr>, h2)"
          and nf2: "no_failure h2" by blast
        with True v strchr_name [OF nm sfx] have
          "long_option_value ?c0 (option_token e) ?arg h1 =
             Proceed (long_option_token e sfx, h2)"
          by (simp add: long_option_value_def long_option_token_def option_token_def)
        with nf2 show ?thesis by blast
      qed
      then obtain h2 where
        val: "long_option_value ?c0 (option_token e) ?arg h1 =
                Proceed (long_option_token e sfx, h2)"
        and nf2: "no_failure h2" by blast
      from vex_add_token_ok [OF nf2 bok, of "long_option_token e sfx"] obtain c h3 where
        add: "vex_add_token ?c0 (long_option_token e sfx) h2 =
          Proceed (?c0\<lparr>capacity_arg_token := c, arg_token_ptr := Live_ptr,
                       arg_token := arg_token ?c0 @ [long_option_token e sfx]\<rparr>, h3)"
        by blast
      from lk nn val add have "long_option ?c0 ?arg h =
          Proceed (?c0\<lparr>capacity_arg_token := c, arg_token_ptr := Live_ptr,
                       arg_token := [long_option_token e sfx]\<rparr>, Some d, Some 0, h3)"
        by (simp add: long_option_def)
      with step have "vex_parse ctx [prog, Some ?arg] h =
          Proceed (ctx\<lparr>arg_token := [long_option_token e sfx], capacity_arg_token := c,
                       arg_token_ptr := Live_ptr\<rparr>, h3)"
        by (simp add: vex_parse_def vex_parse_loop_fresh [OF fresh])
      then show ?thesis by blast
    qed
    with Some show ?thesis by simp
  qed
qed

text \<open>
  Claim C1 as stated fails: \<^verbatim>\<open>strncmp\<close> at l. 251 is bounded by \<^verbatim>\<open>span\<close>, the length of
  the supplied name, not by the length of the registered name. With \<^verbatim>\<open>help\<close> registered,
  \<^verbatim>\<open>--helper\<close> compares six characters, differs from \<^verbatim>\<open>help\<close> at the fifth, and the parse
  fails with \<^verbatim>\<open>VEX_STATUS_UNKNOWN_ARG\<close>.
\<close>

theorem long_option_longer_name_counterexample:
  "long_name (arg_desc default_ctx ! 0) = Some ''help''
   \<and> strict_prefix ''help'' ''helper''
   \<and> vex_parse default_ctx [Some ''prog'', Some ''--helper''] []
     = Return_false
         (default_ctx\<lparr>status := VEX_STATUS_UNKNOWN_ARG,
                      status_msg := Some ''Unknown option: --helper''\<rparr>) []"
  by code_simp

text \<open>
  Claim C1, amended. Take a context whose registered long names are all strings (not
  null) and whose token buffer has not been allocated yet (no earlier parse has stored
  a token), and a run on which no allocation fails. Long-option matching compares only
  as many characters as the supplied name has (the text after \<^verbatim>\<open>--\<close>, up to a \<^verbatim>\<open>=\<close>):
  the single argument \<^verbatim>\<open>--name\<close> or \<^verbatim>\<open>--name=value\<close> resolves to the first registered
  option whose long name begins with \<open>name\<close> and yields a token for it (with the value,
  when the option is not a Flag; for an Integer option the value is within the range
  of \<^verbatim>\<open>int\<close>, as \<^verbatim>\<open>atoi\<close> requires), so a shorter supplied name silently matches a longer
  registered one (\<^verbatim>\<open>--hel\<close> matches \<^verbatim>\<open>help\<close>); when no registered long name begins with
  \<open>name\<close> (in particular when a registered name is only a proper prefix of it, as
  \<^verbatim>\<open>help\<close> is of \<^verbatim>\<open>--helper\<close>) the parse fails with \<^verbatim>\<open>VEX_STATUS_UNKNOWN_ARG\<close>.
\<close>

theorem long_option_resolved_by_supplied_prefix:
  assumes fresh: "arg_token_ptr ctx = Null_ptr"
    and names: "\<forall>e\<in>set (arg_desc ctx). long_name e \<noteq> None"
    and nm: "CHR ''='' \<notin> set nm"
    and sfx: "sfx = [] \<or> hd sfx = CHR ''=''"
    and nsep: "nm @ sfx \<noteq> []"
    and nf: "no_failure h"
  shows "case find (long_match nm) (arg_desc ctx) of
           None \<Rightarrow>
             \<exists>m h'. vex_parse ctx [prog, Some (''--'' @ nm @ sfx)] h =
               Return_false (ctx\<lparr>arg_token := [], capacity_arg_token := 0,
                                 status := VEX_STATUS_UNKNOWN_ARG, status_msg := m\<rparr>) h'
         | Some e \<Rightarrow>
             (arg_type e = VEX_ARG_TYPE_INT \<and> sfx \<noteq> [] \<longrightarrow> atoi (tl sfx) \<noteq> None) \<longrightarrow>
             (\<exists>c h'. vex_parse ctx [prog, Some (''--'' @ nm @ sfx)] h =
               Proceed (ctx\<lparr>arg_token := [long_option_token e sfx], capacity_arg_token := c,
                            arg_token_ptr := Live_ptr\<rparr>, h'))"
  by (rule parse_single_long_option [OF fresh names nm sfx nsep nf])

theorem long_option_resolved_by_supplied_prefix_witness:
  "\<exists>c h'. vex_parse count_ctx [Some ''prog'', Some (''--'' @ ''cou'' @ ''=5'')] [] =
      Proceed (count_ctx
                 \<lparr>arg_token :=
                    [\<lparr>t_long_name = Some ''count'', t_short_name = CHR ''c'',
                      t_arg = [Int_arg 5], t_arg_type = VEX_ARG_TYPE_INT\<rparr>],
                  capacity_arg_token := c, arg_token_ptr := Live_ptr\<rparr>, h')"
proof -
  let ?e = "\<lparr>description = Some ''Number of runs'', long_name = Some ''count'',
             short_name = CHR ''c'', arg_type = VEX_ARG_TYPE_INT, max_count = 1\<rparr>"
  have fresh: "arg_token_ptr count_ctx = Null_ptr"
    by (simp add: count_ctx_def default_ctx_def)
  have names: "\<forall>e\<in>set (arg_desc count_ctx). long_name e \<noteq> None"
    by (simp add: count_ctx_def default_ctx_def)
  have nm: "CHR ''='' \<notin> set ''cou''" by simp
  have sfx: "''=5'' = [] \<or> hd ''=5'' = CHR ''=''" by simp
  have nsep: "''cou'' @ ''=5'' \<noteq> []" by simp
  have nf: "no_failure []" by simp
  have fnd: "find (long_match ''cou'') (arg_desc count_ctx) = Some ?e"
    by code_simp
  have conv: "arg_type ?e = VEX_ARG_TYPE_INT \<and> ''=5'' \<noteq> [] \<longrightarrow> atoi (tl ''=5'') \<noteq> None"
    by code_simp
  have tok: "long_option_token ?e ''=5'' =
      \<lparr>t_long_name = Some ''count'', t_short_name = CHR ''c'',
        t_arg = [Int_arg 5], t_arg_type = VEX_ARG_TYPE_INT\<rparr>"
    by code_simp
  from long_option_resolved_by_supplied_prefix
         [OF fresh names nm sfx nsep nf, of "Some ''prog''"] conv
  show ?thesis by (simp add: fnd tok)
qed

subsection \<open>A long option with an Integer value\<close>

lemma isdigit_not_space: "isdigit c \<Longrightarrow> \<not> isspace c"
  by (auto simp: isdigit_def isspace_def Let_def)

lemma isdigit_not_sign: "isdigit c \<Longrightarrow> c \<noteq> CHR ''-'' \<and> c \<noteq> CHR ''+''"
  by (auto simp: isdigit_def)

lemma digit_val_nonneg: "isdigit c \<Longrightarrow> 0 \<le> digit_val c"
  by (simp add: isdigit_def digit_val_def Let_def)

lemma foldl_decimal_nonneg:
  "\<forall>c\<in>set ds. isdigit c \<Longrightarrow> 0 \<le> acc \<Longrightarrow>
     0 \<le> foldl (\<lambda>acc c. 10 * acc + digit_val c) acc ds"
proof (induction ds arbitrary: acc)
  case Nil
  then show ?case by simp
next
  case (Cons c ds)
  from Cons.prems have "0 \<le> 10 * acc + digit_val c"
    using digit_val_nonneg [of c] by simp
  with Cons show ?case by simp
qed

lemma atoi_digits:
  assumes ds: "\<forall>c\<in>set ds. isdigit c" and fits: "decimal ds \<le> INT_MAX"
  shows "atoi ds = Some (decimal ds)"
proof -
  from ds have sp: "dropWhile isspace ds = ds"
    by (cases ds) (auto simp: isdigit_not_space)
  from ds have tw: "takeWhile isdigit ds = ds"
    by (simp add: takeWhile_eq_all_conv)
  from ds have sg: "(case ds of [] \<Rightarrow> False | c # r \<Rightarrow> c = CHR ''-'') = False"
    "(case ds of [] \<Rightarrow> [] | c # r \<Rightarrow> if c = CHR ''-'' \<or> c = CHR ''+'' then r else ds) = ds"
    by (cases ds; auto dest: isdigit_not_sign)+
  from foldl_decimal_nonneg [OF ds, of 0] have "0 \<le> decimal ds"
    by (simp add: decimal_def)
  with fits show ?thesis
    unfolding atoi_def sp sg Let_def tw by simp
qed


lemma vex_add_arg_counter:
  "vex_add_arg default_ctx
     \<lparr>description = Some ''Name of the counter'', long_name = Some ''counter'',
      short_name = CHR ''r'', arg_type = VEX_ARG_TYPE_STR, max_count = 1\<rparr> []
   = Proceed
       (default_ctx\<lparr>capacity_arg_desc := 4,
          arg_desc := arg_desc default_ctx @
            [\<lparr>description = Some ''Name of the counter'', long_name = Some ''counter'',
              short_name = CHR ''r'', arg_type = VEX_ARG_TYPE_STR, max_count = 1\<rparr>]\<rparr>, [])
   \<and> vex_add_arg
       (default_ctx\<lparr>capacity_arg_desc := 4,
          arg_desc := arg_desc default_ctx @
            [\<lparr>description = Some ''Name of the counter'', long_name = Some ''counter'',
              short_name = CHR ''r'', arg_type = VEX_ARG_TYPE_STR, max_count = 1\<rparr>]\<rparr>)
       \<lparr>description = Some ''Number of runs'', long_name = Some ''count'',
        short_name = CHR ''c'', arg_type = VEX_ARG_TYPE_INT, max_count = 1\<rparr> []
     = Proceed (counter_ctx, [])"
  by code_simp


text \<open>
  Claim C2 as stated fails in a context where an option registered earlier has a long
  name that begins with the supplied name: with \<^verbatim>\<open>--counter\<close> (String) registered before
  \<^verbatim>\<open>--count\<close> (Integer), the argument \<^verbatim>\<open>--count=42\<close> resolves to \<^verbatim>\<open>--counter\<close> and
  yields a String token with the value \<^verbatim>\<open>"42"\<close>.
\<close>

theorem long_option_integer_value_counterexample:
  "arg_desc counter_ctx ! 3 =
     \<lparr>description = Some ''Number of runs'', long_name = Some ''count'',
      short_name = CHR ''c'', arg_type = VEX_ARG_TYPE_INT, max_count = 1\<rparr>
   \<and> vex_parse counter_ctx [Some ''prog'', Some ''--count=42''] []
     = Proceed
         (counter_ctx\<lparr>capacity_arg_token := 1, arg_token_ptr := Live_ptr,
            arg_token := [\<lparr>t_long_name = Some ''counter'', t_short_name = CHR ''r'',
                           t_arg = [Str_arg (Some ''42'')],
                           t_arg_type = VEX_ARG_TYPE_STR\<rparr>]\<rparr>, [])"
  by code_simp

text \<open>
  Claim C2, amended. Take a context whose token buffer has not been allocated yet (no
  earlier parse has stored a token) and whose registered long names are all strings
  (not null), and a run on which no allocation fails. Let an option of Integer kind be
  the first registered descriptor whose long name begins with \<open>nm\<close> (so it is when its
  long name is \<open>nm\<close> and no option registered before it has a long name beginning with
  \<open>nm\<close>). Parsing the single argument \<^verbatim>\<open>--nm=ds\<close>, where \<open>ds\<close> consists of digits and
  denotes a number that fits \<^verbatim>\<open>int\<close>, succeeds and yields exactly one token;
  \<^verbatim>\<open>vex_get_token\<close> returns it with the names of that descriptor, kind Integer and the
  one value denoted by \<open>ds\<close>.
\<close>

theorem long_option_integer_value_roundtrip:
  assumes fresh: "arg_token_ptr ctx = Null_ptr"
    and names: "\<forall>e\<in>set (arg_desc ctx). long_name e \<noteq> None"
    and first: "find (long_match nm) (arg_desc ctx) = Some e"
    and int: "arg_type e = VEX_ARG_TYPE_INT"
    and nm: "CHR ''='' \<notin> set nm"
    and ds: "\<forall>c\<in>set ds. isdigit c" "decimal ds \<le> INT_MAX"
    and nf: "no_failure h"
  shows "\<exists>ctx' h'. vex_parse ctx [prog, Some (''--'' @ nm @ ''='' @ ds)] h = Proceed (ctx', h') \<and>
           vex_token_count ctx' = 1 \<and>
           vex_get_token ctx' 0 =
             Some \<lparr>t_long_name = long_name e, t_short_name = short_name e,
                   t_arg = [Int_arg (decimal ds)], t_arg_type = VEX_ARG_TYPE_INT\<rparr>"
proof -
  let ?sfx = "CHR ''='' # ds"
  let ?tok = "\<lparr>t_long_name = long_name e, t_short_name = short_name e,
                   t_arg = [Int_arg (decimal ds)], t_arg_type = VEX_ARG_TYPE_INT\<rparr>"
  have sfx: "?sfx = [] \<or> hd ?sfx = CHR ''=''" by simp
  have nsep: "nm @ ?sfx \<noteq> []" by simp
  have conv: "atoi ds = Some (decimal ds)" by (rule atoi_digits [OF ds])
  from int conv have tok: "long_option_token e ?sfx = ?tok"
    by (simp add: long_option_token_def option_token_def text_value_def)
  from parse_single_long_option [OF fresh names nm sfx nsep nf, of prog] first conv
  obtain c h' where "vex_parse ctx [prog, Some (''--'' @ nm @ ?sfx)] h =
      Proceed (ctx\<lparr>arg_token := [long_option_token e ?sfx], capacity_arg_token := c,
                   arg_token_ptr := Live_ptr\<rparr>, h')"
    by auto
  then have "vex_parse ctx [prog, Some (''--'' @ nm @ ''='' @ ds)] h =
      Proceed (ctx\<lparr>arg_token := [?tok], capacity_arg_token := c,
                   arg_token_ptr := Live_ptr\<rparr>, h')"
    unfolding tok by simp
  then show ?thesis
    by (simp add: vex_token_count_def vex_get_token_def)
qed

theorem long_option_integer_value_roundtrip_witness:
  "\<exists>ctx' h'. vex_parse count_ctx [Some ''prog'', Some (''--'' @ ''count'' @ ''='' @ ''42'')] []
       = Proceed (ctx', h') \<and>
     vex_token_count ctx' = 1 \<and>
     vex_get_token ctx' 0 =
       Some \<lparr>t_long_name = Some ''count'', t_short_name = CHR ''c'',
             t_arg = [Int_arg 42], t_arg_type = VEX_ARG_TYPE_INT\<rparr>"
proof -
  let ?e = "\<lparr>description = Some ''Number of runs'', long_name = Some ''count'',
             short_name = CHR ''c'', arg_type = VEX_ARG_TYPE_INT, max_count = 1\<rparr>"
  have fresh: "arg_token_ptr count_ctx = Null_ptr"
    by (simp add: count_ctx_def default_ctx_def)
  have names: "\<forall>e\<in>set (arg_desc count_ctx). long_name e \<noteq> None"
    by (simp add: count_ctx_def default_ctx_def)
  have first: "find (long_match ''count'') (arg_desc count_ctx) = Some ?e"
    by code_simp
  have int: "arg_type ?e = VEX_ARG_TYPE_INT" by simp
  have nm: "CHR ''='' \<notin> set ''count''" by simp
  have ds: "\<forall>c\<in>set ''42''. isdigit c" "decimal ''42'' \<le> INT_MAX"
    by (simp_all add: isdigit_def decimal_def digit_val_def)
  have dec: "decimal ''42'' = 42"
    by (simp add: decimal_def digit_val_def)
  have nf: "no_failure []" by simp
  from long_option_integer_value_roundtrip [OF fresh names first int nm ds nf, of "Some ''prog''"]
  show ?thesis unfolding dec by simp
qed

subsection \<open>The kinds of stored tokens\<close>

lemma infer_type_resolved:
  "ty \<in> {VEX_ARG_TYPE_INT, VEX_ARG_TYPE_DUB, VEX_ARG_TYPE_STR} \<Longrightarrow>
   infer_type ty s \<in> {VEX_ARG_TYPE_INT, VEX_ARG_TYPE_DUB, VEX_ARG_TYPE_STR}"
  by (induction s arbitrary: ty) auto

lemma infer_type_nonempty:
  "s \<noteq> [] \<Longrightarrow>
   infer_type VEX_ARG_TYPE_UNKNOWN s \<in> {VEX_ARG_TYPE_INT, VEX_ARG_TYPE_DUB, VEX_ARG_TYPE_STR}"
proof (cases s)
  case Nil
  then show "s \<noteq> [] \<Longrightarrow> ?thesis" by simp
next
  case (Cons c cs)
  have "infer_type VEX_ARG_TYPE_DUB cs \<in> {VEX_ARG_TYPE_INT, VEX_ARG_TYPE_DUB, VEX_ARG_TYPE_STR}"
       "infer_type VEX_ARG_TYPE_INT cs \<in> {VEX_ARG_TYPE_INT, VEX_ARG_TYPE_DUB, VEX_ARG_TYPE_STR}"
    by (rule infer_type_resolved, simp)+
  with Cons show ?thesis by simp
qed

lemma tokens_ok_None: "tokens_ok args ctx lt \<Longrightarrow> tokens_ok args ctx None"
  by (simp add: tokens_ok_def)

lemma tokens_ok_update:
  assumes inv: "tokens_ok args ctx lt" and i: "i < length (arg_token ctx)"
    and r: "resolved (t_arg_type (arg_token ctx ! i))"
  shows "tokens_ok args
           (ctx\<lparr>arg_token := (arg_token ctx)[i := (arg_token ctx ! i)\<lparr>t_arg := vs\<rparr>]\<rparr>) lt"
proof -
  let ?ts = "arg_token ctx"
  let ?ts' = "?ts[i := (?ts ! i)\<lparr>t_arg := vs\<rparr>]"
  have ty: "t_arg_type (?ts' ! j) = t_arg_type (?ts ! j)" if "j < length ?ts" for j
    using that i by (cases "i = j") simp_all
  from r have "kind_ok args ((?ts ! i)\<lparr>t_arg := vs\<rparr>)" by (simp add: kind_ok_def)
  with inv set_update_subset_insert [of ?ts i "(?ts ! i)\<lparr>t_arg := vs\<rparr>"]
  have "list_all (kind_ok args) ?ts'"
    by (auto simp: tokens_ok_def list_all_iff)
  with inv ty show ?thesis
    by (cases lt) (simp_all add: tokens_ok_def)
qed

lemma tokens_ok_append:
  assumes inv: "tokens_ok args ctx lt" and r: "resolved (t_arg_type tok)"
  shows "tokens_ok args
           (ctx\<lparr>capacity_arg_token := c, arg_token_ptr := p, arg_token := arg_token ctx @ [tok]\<rparr>)
           (Some (length (arg_token ctx)))"
  using assms by (simp add: tokens_ok_def kind_ok_def)

lemma tokens_ok_append_free:
  assumes inv: "tokens_ok args ctx lt" and k: "kind_ok args tok"
  shows "tokens_ok args
           (ctx\<lparr>capacity_arg_token := c, arg_token_ptr := p, arg_token := arg_token ctx @ [tok]\<rparr>)
           None"
  using assms by (simp add: tokens_ok_def)

lemma tokens_ok_long_option:
  assumes "long_option ctx arg h = Proceed (ctx', ld, lt, h')"
    and reg: "\<forall>e\<in>set (arg_desc ctx). resolved (arg_type e)"
    and inv: "tokens_ok args ctx lt0"
  shows "tokens_ok args ctx' lt"
  using assms(1)
proof (cases rule: long_option_Proceed)
  case (1 tok h1 vs c)
  from long_option_lookup_cases [OF 1(1)] 1(2) obtain i where
    "i < length (arg_desc ctx)" "t_arg_type tok = arg_type (arg_desc ctx ! i)"
    by auto
  with reg have "resolved (t_arg_type (tok\<lparr>t_arg := vs\<rparr>))" by simp
  from tokens_ok_append [OF inv this] 1 show ?thesis by simp
qed

lemma tokens_ok_short_options:
  "short_options ctx ld lt s h = Proceed (ctx', ld', lt', h') \<Longrightarrow>
   \<forall>e\<in>set (arg_desc ctx). resolved (arg_type e) \<Longrightarrow>
   tokens_ok args ctx lt \<Longrightarrow>
   tokens_ok args ctx' lt'"
proof (induction s arbitrary: ctx ld lt h)
  case Nil
  then show ?case by simp
next
  case (Cons c cs)
  from Cons.prems(1) show ?case
  proof (cases rule: short_options_Cons_Proceed)
    case (attach tok m h1 t v h3)
    from Cons.prems(3) attach(3) have "resolved (t_arg_type (arg_token ctx ! t))"
      by (simp add: tokens_ok_def)
    from tokens_ok_update [OF Cons.prems(3) attach(4) this] attach(7) show ?thesis by simp
  next
    case (matched tok m h1 c1 h2)
    from short_option_lookup_cases [OF matched(1)] matched(2) obtain i where
      "i < length (arg_desc ctx)" "t_arg_type tok = arg_type (arg_desc ctx ! i)"
      by auto
    with Cons.prems(2) have tok: "resolved (t_arg_type tok)" by simp
    let ?ctx1 = "ctx\<lparr>capacity_arg_token := c1, arg_token_ptr := Live_ptr,
                     arg_token := arg_token ctx @ [tok]\<rparr>"
    from Cons.prems(2) have reg1: "\<forall>e\<in>set (arg_desc ?ctx1). resolved (arg_type e)"
      by simp
    have inv1: "tokens_ok args ?ctx1 (Some (length (arg_token ctx)))"
      by (rule tokens_ok_append [OF Cons.prems(3) tok])
    from Cons.IH [OF matched(3) reg1 inv1] show ?thesis .
  qed
qed

lemma tokens_ok_free_value:
  assumes "free_value ctx ls arg h = Proceed (ctx', ls', h')"
    and mem: "Some arg \<in> set args"
    and inv: "tokens_ok args ctx (last_token ls)"
  shows "tokens_ok args ctx' (last_token ls')"
  using assms(1)
proof (cases rule: free_value_Proceed)
  case (grouped t v)
  from inv grouped(1) have "resolved (t_arg_type (arg_token ctx ! t))"
    by (simp add: tokens_ok_def)
  from tokens_ok_update [OF inv grouped(3) this] grouped show ?thesis by simp
next
  case (fresh v c h1)
  let ?tok = "\<lparr>t_long_name = None, t_short_name = NUL, t_arg = [v],
               t_arg_type = infer_type VEX_ARG_TYPE_UNKNOWN arg\<rparr>"
  have "kind_ok args ?tok"
  proof (cases "arg = []")
    case True
    with fresh(3) have "v = zero_value" by (simp add: value_of_type_def)
    with True have "?tok = free_token []"
      by (simp add: free_token_def text_value_def)
    with mem True show ?thesis by (simp add: kind_ok_def)
  next
    case False
    from infer_type_nonempty [OF this] show ?thesis by (auto simp: kind_ok_def resolved_def)
  qed
  from tokens_ok_append_free [OF inv this] fresh show ?thesis by simp
qed

lemma tokens_ok_parse_arg:
  assumes "parse_arg ctx ls a h = Proceed (ctx', ls', h')"
    and mem: "a \<in> set args"
    and reg: "\<forall>e\<in>set (arg_desc ctx). resolved (arg_type e)"
    and inv: "tokens_ok args ctx (last_token ls)"
  shows "tokens_ok args ctx' (last_token ls')"
proof (cases a)
  case None
  with assms show ?thesis by (simp add: parse_arg_def)
next
  case (Some arg)
  show ?thesis
  proof (cases "arg = ''--''")
    case True
    with assms Some show ?thesis by (auto simp: parse_arg_def)
  next
    case sep: False
    show ?thesis
    proof (cases "parse_options ls \<and> char_at arg 0 = CHR ''-''")
      case False
      with assms Some sep have "free_value ctx ls arg h = Proceed (ctx', ls', h')"
        by (auto simp: parse_arg_def)
      from tokens_ok_free_value [OF this _ inv] mem Some show ?thesis by simp
    next
      case opt: True
      show ?thesis
      proof (cases "char_at arg 1 = CHR ''-''")
        case True
        with assms Some sep opt obtain ld lt where
          "long_option ctx arg h = Proceed (ctx', ld, lt, h')"
          and "last_token ls' = lt"
          by (auto simp: parse_arg_def obind_eq_Proceed)
        with tokens_ok_long_option [OF this(1) reg inv] show ?thesis by simp
      next
        case False
        with assms Some sep opt obtain ld lt where
          "short_options ctx None None (drop 1 arg) h = Proceed (ctx', ld, lt, h')"
          and "last_token ls' = lt"
          by (auto simp: parse_arg_def obind_eq_Proceed)
        with tokens_ok_short_options [OF this(1) reg tokens_ok_None [OF inv]]
        show ?thesis by simp
      qed
    qed
  qed
qed

lemma tokens_ok_parse_args:
  "parse_args ctx ls as h = Proceed (ctx', ls', h') \<Longrightarrow> set as \<subseteq> set args \<Longrightarrow>
   \<forall>e\<in>set (arg_desc ctx). resolved (arg_type e) \<Longrightarrow>
   tokens_ok args ctx (last_token ls) \<Longrightarrow>
   tokens_ok args ctx' (last_token ls')"
proof (induction as arbitrary: ctx ls h)
  case Nil
  then show ?case by simp
next
  case (Cons a as)
  from Cons.prems(1) obtain ctx1 ls1 h1 where
    step: "parse_arg ctx ls a h = Proceed (ctx1, ls1, h1)" and
    rest: "parse_args ctx1 ls1 as h1 = Proceed (ctx', ls', h')"
    by (auto simp: obind_eq_Proceed)
  from Cons.prems(2) have mem: "a \<in> set args" and sub: "set as \<subseteq> set args" by simp_all
  from same_but_tokens_fields [OF parse_arg_same [OF step]] Cons.prems(3)
  have reg1: "\<forall>e\<in>set (arg_desc ctx1). resolved (arg_type e)"
    by simp
  from Cons.IH [OF rest sub reg1 tokens_ok_parse_arg [OF step mem Cons.prems(3,4)]]
  show ?case .
qed

text \<open>
  Claim C4 as stated fails: for the empty string the loop of l. 335-348 does not run and
  the type stays \<^verbatim>\<open>VEX_ARG_TYPE_UNKNOWN\<close>, and l. 372-382 store a token of that type.
\<close>

theorem stored_token_kinds_counterexample:
  "vex_parse default_ctx [Some ''prog'', Some []] []
   = Proceed
       (default_ctx\<lparr>capacity_arg_token := 1, arg_token_ptr := Live_ptr,
          arg_token := [\<lparr>t_long_name = None, t_short_name = NUL, t_arg = [zero_value],
                         t_arg_type = VEX_ARG_TYPE_UNKNOWN\<rparr>]\<rparr>, [])
   \<and> VEX_ARG_TYPE_UNKNOWN \<noteq> VEX_ARG_TYPE_STR"
  by code_simp

text \<open>
  Claim C4, amended. When every registered descriptor has a kind in
  \<open>{Flag, Integer, Float, String}\<close>, every token stored by a successful parse has such a
  kind, except the tokens of empty free-standing arguments: an empty argument string
  is classified as Unknown, not String, and is stored as the free-standing token built
  for the empty string (\<open>free_token []\<close>: no names, kind Unknown, and one value, the
  zeroed one). The Unknown kind occurs in a stored token in that case only: a stored
  token that has no resolved kind is exactly that token, and an empty string is among
  the arguments.
\<close>

theorem stored_token_kinds:
  assumes ok: "vex_parse ctx argv h = Proceed (ctx', h')"
    and reg: "\<forall>e\<in>set (arg_desc ctx). arg_type e \<in>
               {VEX_ARG_TYPE_FLAG, VEX_ARG_TYPE_INT, VEX_ARG_TYPE_DUB, VEX_ARG_TYPE_STR}"
  shows "\<forall>t\<in>set (arg_token ctx').
           t_arg_type t \<in> {VEX_ARG_TYPE_FLAG, VEX_ARG_TYPE_INT, VEX_ARG_TYPE_DUB, VEX_ARG_TYPE_STR} \<or>
           (t = free_token [] \<and> Some [] \<in> set (drop 1 argv))"
proof -
  from ok obtain ls' where
    "vex_parse_loop ctx (drop 1 argv) h = Proceed (ctx', ls', h')"
    by (auto simp: vex_parse_def obind_eq_Proceed)
  then have "tokens_ok (drop 1 argv) ctx' (last_token ls')"
  proof (cases rule: vex_parse_loop_Proceed)
    case (1 ctx0)
    from 1(1) have "arg_desc ctx0 = arg_desc ctx"
      by (auto simp: clear_tokens_def split: pointer.splits)
    with reg have reg0: "\<forall>e\<in>set (arg_desc ctx0). resolved (arg_type e)"
      by (simp add: resolved_def)
    from 1(3) have inv0: "tokens_ok (drop 1 argv) ctx0
        (last_token \<lparr>last_desc = None, last_token = None, parse_options = True\<rparr>)"
      by (simp add: tokens_ok_def)
    from tokens_ok_parse_args [OF 1(2) subset_refl reg0 inv0] show ?thesis .
  qed
  then show ?thesis by (simp add: tokens_ok_def list_all_iff kind_ok_def resolved_def)
qed

theorem stored_token_kinds_witness:
  "t_arg_type \<lparr>t_long_name = Some ''count'', t_short_name = CHR ''c'',
               t_arg = [Int_arg 7], t_arg_type = VEX_ARG_TYPE_INT\<rparr>
     \<in> {VEX_ARG_TYPE_FLAG, VEX_ARG_TYPE_INT, VEX_ARG_TYPE_DUB, VEX_ARG_TYPE_STR}
   \<and> \<lparr>t_long_name = None, t_short_name = NUL, t_arg = [zero_value],
       t_arg_type = VEX_ARG_TYPE_UNKNOWN\<rparr> = free_token []
   \<and> Some [] \<in> set (drop 1 [Some ''prog'', Some ''--count=7'', Some []])"
proof -
  let ?c' = "count_ctx\<lparr>capacity_arg_token := 2, arg_token_ptr := Live_ptr,
           arg_token := [\<lparr>t_long_name = Some ''count'', t_short_name = CHR ''c'',
                          t_arg = [Int_arg 7], t_arg_type = VEX_ARG_TYPE_INT\<rparr>,
                         \<lparr>t_long_name = None, t_short_name = NUL, t_arg = [zero_value],
                          t_arg_type = VEX_ARG_TYPE_UNKNOWN\<rparr>]\<rparr>"
  have ok: "vex_parse count_ctx [Some ''prog'', Some ''--count=7'', Some []] []
              = Proceed (?c', [])"
    by code_simp
  have reg: "\<forall>e\<in>set (arg_desc count_ctx). arg_type e \<in>
               {VEX_ARG_TYPE_FLAG, VEX_ARG_TYPE_INT, VEX_ARG_TYPE_DUB, VEX_ARG_TYPE_STR}"
    by (simp add: count_ctx_def default_ctx_def)
  from stored_token_kinds [OF ok reg] show ?thesis by simp
qed


end
